theory Spec2Isabelle
  imports Complex_Main "HOL-Library.Log_Nat" "HOL-Library.AList"
begin

section \<open>JavaScript numbers\<close>

text \<open>
  The hotspot counters are integers far below \<open>2^53\<close>, where JavaScript's double
  arithmetic on integers (\<open>+\<close>, \<open>-\<close>, \<open>Math.max\<close>, \<open>Math.min\<close>) is exact; they are
  modelled as \<open>int\<close>. Division and the multiplication of a quotient are not exact in
  double precision, so \<open>fl\<close> rounds a rational to the nearest double (53 significant
  bits, ties to even; the exponent range is not reached by quotients of such integers).
\<close>

definition pow2 :: "int \<Rightarrow> rat" where
  "pow2 e = (if 0 \<le> e then 2 ^ nat e else 1 / 2 ^ nat (- e))"

definition ilog2 :: "rat \<Rightarrow> int" where
  \<comment> \<open>for \<open>x > 0\<close>: the exponent \<open>e\<close> with \<open>2^e \<le> x < 2^(e+1)\<close>\<close>
  "ilog2 x = (let (p, q) = quotient_of x; d = bitlen p - bitlen q
              in if pow2 d \<le> x then d else d - 1)"

definition round_half_even :: "rat \<Rightarrow> int" where
  "round_half_even x = (let f = \<lfloor>x\<rfloor>; r = x - of_int f
     in if r < 1/2 then f else if 1/2 < r then f + 1 else if even f then f else f + 1)"

definition fl_pos :: "rat \<Rightarrow> rat" where
  "fl_pos x = (let u = pow2 (ilog2 x - 52) in of_int (round_half_even (x / u)) * u)"

definition fl :: "rat \<Rightarrow> rat" where
  "fl x = (if x = 0 then 0 else if 0 < x then fl_pos x else - fl_pos (- x))"

definition js_div :: "int \<Rightarrow> int \<Rightarrow> rat" where
  \<comment> \<open>\<open>a / b\<close> on two integer-valued numbers, \<open>b \<noteq> 0\<close>\<close>
  "js_div a b = fl (of_int a / of_int b)"

definition js_mul :: "rat \<Rightarrow> rat \<Rightarrow> rat" where
  "js_mul x y = fl (x * y)"

definition Math_round :: "rat \<Rightarrow> int" where
  \<comment> \<open>nearest integer, a tie going up\<close>
  "Math_round x = \<lfloor>x + 1/2\<rfloor>"


section \<open>The environment of the server\<close>

text \<open>
  What the code takes from outside is an explicit environment: the values that the
  successive calls of \<open>Math.random()\<close> return, which database calls are rejected, the
  clock, and the two functions of the bcrypt library the code uses.

  A draw is a double in \<open>[0, 1)\<close>, hence at most \<open>1 - 2^-53\<close>. The product
  \<open>Math.random() * k\<close> is the double product \<open>js_mul\<close>, and a decimal literal of the
  code such as \<open>0.05\<close> is the double nearest to it, \<open>fl (5 / 100)\<close>.
\<close>

datatype error =
  TypeError             \<comment> \<open>calling a property that is not a function\<close>
  | SqliteError         \<comment> \<open>the database rejects the call (I/O failure, lock, closed handle)\<close>
  | SqlSyntaxError
  | NoSuchColumn
  | UniqueConstraintFailed
  | NotNullConstraintFailed
  | BcryptError         \<comment> \<open>\<open>compareSync\<close> is given an argument that is not a string\<close>

record env =
  draws :: "nat \<Rightarrow> rat"
  db_fails :: "nat \<Rightarrow> bool"
  now :: string
  hashSync :: "string \<Rightarrow> string"
  compareSync :: "string \<Rightarrow> string \<Rightarrow> bool"

definition Math_random :: "env \<Rightarrow> nat \<Rightarrow> rat \<times> nat" where
  \<comment> \<open>the second component counts the calls of \<open>Math.random()\<close> made so far\<close>
  "Math_random ev n = (draws ev n, Suc n)"

definition random_int :: "env \<Rightarrow> nat \<Rightarrow> rat \<Rightarrow> int \<times> nat" where
  \<comment> \<open>\<open>Math.floor(Math.random() * k)\<close>\<close>
  "random_int ev n k = (let (r, n') = Math_random ev n in (\<lfloor>js_mul r k\<rfloor>, n'))"


section \<open>JSON values\<close>

datatype json =
  JNull | JBool bool | JNum rat | JStr string | JArr "json list" | JObj "(string \<times> json) list"

definition JInt :: "int \<Rightarrow> json" where
  "JInt i = JNum (of_int i)"

fun envelope_type :: "json \<Rightarrow> string option" where
  \<comment> \<open>the \<open>type\<close> of an object with exactly the two fields \<open>type\<close> and \<open>data\<close>\<close>
  "envelope_type (JObj [(k1, JStr t), (k2, d)]) =
     (if k1 = ''type'' \<and> k2 = ''data'' then Some t else None)"
| "envelope_type _ = None"


section \<open>Districts and the in-memory metrics\<close>

record district =
  district_id :: nat
  name :: string
  total_hotspots :: int
  active_hotspots :: int
  utilization :: int
  status :: string
  last_ping :: string

record wifiData =
  totalHotspots :: int
  activeHotspots :: int
  wifi_utilization :: int
  criticalDistricts :: nat
  districts :: "district list"
  lastUpdated :: string

record metrics_row =
  m_total_hotspots :: int
  m_active_hotspots :: int
  m_utilization :: int
  m_critical_districts :: nat

definition district_json :: "district \<Rightarrow> json" where
  "district_json d = JObj
     [(''id'', JInt (int (district_id d))), (''name'', JStr (name d)),
      (''total_hotspots'', JInt (total_hotspots d)),
      (''active_hotspots'', JInt (active_hotspots d)),
      (''utilization'', JInt (utilization d)), (''status'', JStr (status d)),
      (''last_ping'', JStr (last_ping d))]"

definition updateMetricsFromDistricts :: "env \<Rightarrow> wifiData \<Rightarrow> wifiData" where
  "updateMetricsFromDistricts ev w =
     (let totalHotspots' = foldl (\<lambda>sum d. sum + total_hotspots d) 0 (districts w);
          activeHotspots' = foldl (\<lambda>sum d. sum + active_hotspots d) 0 (districts w);
          utilization' = (if totalHotspots' > 0
             then Math_round (js_mul (js_div activeHotspots' totalHotspots') 100) else 0);
          criticalDistricts' = length (filter (\<lambda>d. status d = ''critical'') (districts w))
      in w\<lparr>totalHotspots := totalHotspots', activeHotspots := activeHotspots',
            wifi_utilization := utilization', criticalDistricts := criticalDistricts',
            lastUpdated := now ev\<rparr>)"

definition newStatus :: "rat \<Rightarrow> string \<Rightarrow> string" where
  \<comment> \<open>the status transition of the per-district loop body, for the draw \<open>rand\<close>\<close>
  "newStatus rand st =
     (if rand < fl (5 / 100) then (if st = ''critical'' then ''warning'' else ''critical'')
      else if rand < fl (1 / 10) then (if st = ''normal'' then ''warning'' else ''normal'')
      else st)"


section \<open>The Wi-Fi database\<close>

record wifi_db =
  districts_tbl :: "district list"
  wifi_metrics :: "metrics_row list"
  db_calls :: nat

definition updateDistrict ::
  "env \<Rightarrow> wifi_db \<Rightarrow> nat \<Rightarrow> int \<times> int \<times> string \<Rightarrow> (error + unit) \<times> wifi_db" where
  \<comment> \<open>\<open>UPDATE districts SET active_hotspots = ?, utilization = ?, status = ?,
      last_ping = CURRENT_TIMESTAMP WHERE id = ?\<close>\<close>
  "updateDistrict ev dbs districtId updates =
     (let dbs' = dbs\<lparr>db_calls := Suc (db_calls dbs)\<rparr>
      in if db_fails ev (db_calls dbs) then (Inl SqliteError, dbs')
         else case updates of (a, u, st) \<Rightarrow>
           (Inr (), dbs'\<lparr>districts_tbl :=
              map (\<lambda>r. if district_id r = districtId
                        then r\<lparr>active_hotspots := a, utilization := u, status := st,
                               last_ping := now ev\<rparr>
                        else r) (districts_tbl dbs)\<rparr>))"

definition saveMetrics :: "env \<Rightarrow> wifi_db \<Rightarrow> metrics_row \<Rightarrow> (error + unit) \<times> wifi_db" where
  "saveMetrics ev dbs metrics =
     (let dbs' = dbs\<lparr>db_calls := Suc (db_calls dbs)\<rparr>
      in if db_fails ev (db_calls dbs) then (Inl SqliteError, dbs')
         else (Inr (), dbs'\<lparr>wifi_metrics := wifi_metrics dbs @ [metrics]\<rparr>))"


section \<open>The WebSocket server and the simulation tick\<close>

text \<open>
  The server state holds the in-memory \<open>wifiData\<close>, the Wi-Fi database, the number of
  calls of \<open>Math.random()\<close> made so far, the sockets of \<open>wss.clients\<close> with their
  ready state, and every message sent so far with its receiver. A tick is one step of the
  model. In the program a tick waits for the database between its statements, and other
  handlers can run in the meantime; that interleaving is not modelled.
\<close>

datatype ready_state = CONNECTING | OPEN | CLOSING | CLOSED

record server =
  wifi :: wifiData
  wifiDb :: wifi_db
  rng_calls :: nat
  clients :: "(nat \<times> ready_state) list"
  outbox :: "(nat \<times> json) list"

definition simulate_district ::
  "env \<Rightarrow> district \<Rightarrow> nat \<times> wifi_db \<Rightarrow> (error + district) \<times> nat \<times> wifi_db" where
  \<comment> \<open>the body of the loop over \<open>wifiData.districts\<close>\<close>
  "simulate_district ev d = (\<lambda>(n, dbs).
     let (k1, n1) = random_int ev n 20;
         newActiveHotspots = max 0 (min (total_hotspots d) (active_hotspots d + k1 - 10));
         (k2, n2) = random_int ev n1 8;
         newUtilization = max 0 (min 100 (utilization d + k2 - 4));
         (rand, n3) = Math_random ev n2;
         st = newStatus rand (status d)
     in case updateDistrict ev dbs (district_id d) (newActiveHotspots, newUtilization, st) of
          (Inl e, dbs') \<Rightarrow> (Inl e, n3, dbs')
        | (Inr _, dbs') \<Rightarrow>
            (Inr (d\<lparr>active_hotspots := newActiveHotspots, utilization := newUtilization,
                    status := st, last_ping := now ev\<rparr>), n3, dbs'))"

fun simulate_districts ::
  "env \<Rightarrow> district list \<Rightarrow> nat \<times> wifi_db \<Rightarrow> error option \<times> district list \<times> nat \<times> wifi_db" where
  \<comment> \<open>the loop: a rejected database call leaves the remaining districts untouched\<close>
  "simulate_districts ev [] st = (None, [], st)"
| "simulate_districts ev (d # ds) st =
     (case simulate_district ev d st of
        (Inl e, st') \<Rightarrow> (Some e, d # ds, st')
      | (Inr d', st') \<Rightarrow>
          (case simulate_districts ev ds st' of (r, ds', st'') \<Rightarrow> (r, d' # ds', st'')))"

definition data_update_message :: "wifiData \<Rightarrow> json" where
  "data_update_message w = JObj
     [(''type'', JStr ''data_update''),
      (''data'', JObj
         [(''districts'', JArr (map district_json (districts w))),
          (''totalHotspots'', JInt (totalHotspots w)),
          (''activeHotspots'', JInt (activeHotspots w)),
          (''utilization'', JInt (wifi_utilization w)),
          (''criticalDistricts'', JInt (int (criticalDistricts w)))])]"

definition broadcastUpdate :: "server \<Rightarrow> server" where
  "broadcastUpdate s =
     s\<lparr>outbox := outbox s @
          map (\<lambda>c. (fst c, data_update_message (wifi s)))
              (filter (\<lambda>c. snd c = OPEN) (clients s))\<rparr>"

definition update_main_metrics :: "env \<Rightarrow> wifiData \<Rightarrow> nat \<Rightarrow> wifiData \<times> nat" where
  \<comment> \<open>the three statements under "Update main metrics", before the loop\<close>
  "update_main_metrics ev w n =
     (let (k1, n1) = random_int ev n 20;
          w1 = w\<lparr>totalHotspots := totalHotspots w + k1 - 10\<rparr>;
          (k2, n2) = random_int ev n1 30;
          w2 = w1\<lparr>activeHotspots := activeHotspots w1 + k2 - 15\<rparr>;
          (k3, n3) = random_int ev n2 6;
          w3 = w2\<lparr>wifi_utilization := max 0 (min 100 (wifi_utilization w2 + k3 - 3))\<rparr>
      in (w3, n3))"

definition metrics_of :: "wifiData \<Rightarrow> metrics_row" where
  \<comment> \<open>the object passed to \<open>database.saveMetrics\<close>\<close>
  "metrics_of w =
     \<lparr>m_total_hotspots = totalHotspots w, m_active_hotspots = activeHotspots w,
      m_utilization = wifi_utilization w, m_critical_districts = criticalDistricts w\<rparr>"

definition simulateRealTimeData :: "env \<Rightarrow> server \<Rightarrow> server" where
  \<comment> \<open>a rejected database call throws; the \<open>catch\<close> logs it and the tick ends there\<close>
  "simulateRealTimeData ev s =
     (case update_main_metrics ev (wifi s) (rng_calls s) of (w3, n3) \<Rightarrow>
      case simulate_districts ev (districts w3) (n3, wifiDb s) of
        (Some e, ds, n4, dbs) \<Rightarrow>
          s\<lparr>wifi := w3\<lparr>districts := ds\<rparr>, wifiDb := dbs, rng_calls := n4\<rparr>
      | (None, ds, n4, dbs) \<Rightarrow>
          (case saveMetrics ev dbs
                  (metrics_of (updateMetricsFromDistricts ev (w3\<lparr>districts := ds\<rparr>))) of
             (Inl e, dbs') \<Rightarrow>
               s\<lparr>wifi := updateMetricsFromDistricts ev (w3\<lparr>districts := ds\<rparr>),
                 wifiDb := dbs', rng_calls := n4\<rparr>
           | (Inr _, dbs') \<Rightarrow>
               broadcastUpdate
                 (s\<lparr>wifi := updateMetricsFromDistricts ev (w3\<lparr>districts := ds\<rparr>),
                    wifiDb := dbs', rng_calls := n4\<rparr>)))"


section \<open>WebSocket connections\<close>

definition hotspot ::
  "int \<Rightarrow> string \<Rightarrow> rat \<Rightarrow> rat \<Rightarrow> string \<Rightarrow> int \<Rightarrow> int \<Rightarrow> string \<Rightarrow> json" where
  "hotspot i nm lat lng st connections util address = JObj
     [(''id'', JInt i), (''name'', JStr nm), (''lat'', JNum lat), (''lng'', JNum lng),
      (''status'', JStr st), (''connections'', JInt connections),
      (''utilization'', JInt util), (''address'', JStr address)]"

definition generateSampleHotspots :: "env \<Rightarrow> nat \<Rightarrow> json \<times> nat" where
  \<comment> \<open>the properties are evaluated in the order of the source; the coordinates are the
      decimal numbers that \<open>JSON.stringify\<close> prints for the literals\<close>
  "generateSampleHotspots ev n =
     (let (c1, n1) = random_int ev n 50;
          (u1, n2) = random_int ev n1 30;
          (c2, n3) = random_int ev n2 40;
          (u2, n4) = random_int ev n3 25;
          (r3, n5) = Math_random ev n4;
          (c3, n6) = random_int ev n5 60;
          (u3, n7) = random_int ev n6 20;
          (r4, n8) = Math_random ev n7;
          (c4, n9) = random_int ev n8 10;
          (q4, n10) = Math_random ev n9;
          (u4, n11) = (if q4 > fl (8 / 10) then (0, n10)
                       else (let (k, m) = random_int ev n10 15 in (k + 40, m)));
          (c5, n12) = random_int ev n11 45;
          (u5, n13) = random_int ev n12 35
      in (JArr
           [hotspot 1 ''Times Square Hotspot'' (40758 / 1000) (- 739855 / 10000) ''online''
              (c1 + 20) (u1 + 60) ''Times Square, NYC'',
            hotspot 2 ''Central Park WiFi'' (407829 / 10000) (- 739654 / 10000) ''online''
              (c2 + 15) (u2 + 55) ''Central Park, NYC'',
            hotspot 3 ''Brooklyn Bridge Hotspot'' (407061 / 10000) (- 739969 / 10000)
              (if r3 > fl (3 / 10) then ''warning'' else ''online'')
              (c3 + 30) (u3 + 70) ''Brooklyn Bridge, NYC'',
            hotspot 4 ''Wall Street Zone'' (407074 / 10000) (- 740113 / 10000)
              (if r4 > fl (8 / 10) then ''offline'' else ''online'')
              c4 u4 ''Wall Street, NYC'',
            hotspot 5 ''Union Square Hub'' (407359 / 10000) (- 739911 / 10000) ''online''
              (c5 + 25) (u5 + 50) ''Union Square, NYC''], n13))"

definition initial_data_message :: "json \<Rightarrow> wifiData \<Rightarrow> json" where
  "initial_data_message hotspots w = JObj
     [(''type'', JStr ''initial_data''),
      (''data'', JObj
         [(''hotspots'', hotspots),
          (''districts'', JArr (map district_json (districts w))),
          (''totalHotspots'', JInt (totalHotspots w)),
          (''activeHotspots'', JInt (activeHotspots w)),
          (''utilization'', JInt (wifi_utilization w))])]"

definition update_reply_message :: "wifiData \<Rightarrow> json" where
  \<comment> \<open>the answer to \<open>request_update\<close>: a \<open>data_update\<close> without \<open>criticalDistricts\<close>\<close>
  "update_reply_message w = JObj
     [(''type'', JStr ''data_update''),
      (''data'', JObj
         [(''districts'', JArr (map district_json (districts w))),
          (''totalHotspots'', JInt (totalHotspots w)),
          (''activeHotspots'', JInt (activeHotspots w)),
          (''utilization'', JInt (wifi_utilization w))])]"

definition on_connection :: "env \<Rightarrow> nat \<Rightarrow> server \<Rightarrow> server" where
  \<comment> \<open>\<open>wss.on('connection', ...)\<close>: the socket \<open>ws\<close> has joined \<open>wss.clients\<close>, open\<close>
  "on_connection ev ws s =
     (case generateSampleHotspots ev (rng_calls s) of (hotspots, n') \<Rightarrow>
        s\<lparr>rng_calls := n', clients := clients s @ [(ws, OPEN)],
          outbox := outbox s @ [(ws, initial_data_message hotspots (wifi s))]\<rparr>)"

fun requests_update :: "json option \<Rightarrow> bool" where
  \<comment> \<open>\<open>JSON.parse(message).type === 'request_update'\<close>; \<open>None\<close> is text that does not
      parse. A parse error and the property access on \<open>null\<close> throw, and the \<open>catch\<close>
      logs them.\<close>
  "requests_update (Some (JObj props)) = (map_of props ''type'' = Some (JStr ''request_update''))"
| "requests_update _ = False"

definition on_message :: "nat \<Rightarrow> json option \<Rightarrow> server \<Rightarrow> server" where
  "on_message ws parsed s =
     (if requests_update parsed
      then s\<lparr>outbox := outbox s @ [(ws, update_reply_message (wifi s))]\<rparr>
      else s)"

definition on_close :: "nat \<Rightarrow> server \<Rightarrow> server" where
  "on_close ws s = s\<lparr>clients := filter (\<lambda>c. fst c \<noteq> ws) (clients s)\<rparr>"

datatype event = Connection nat | Message nat "json option" | Close nat | Tick

fun handle :: "env \<Rightarrow> event \<Rightarrow> server \<Rightarrow> server" where
  "handle ev (Connection ws) s = on_connection ev ws s"
| "handle ev (Message ws parsed) s = on_message ws parsed s"
| "handle ev (Close ws) s = on_close ws s"
| "handle ev Tick s = simulateRealTimeData ev s"


section \<open>Strings\<close>

text \<open>
  A string of the program is a \<open>string\<close> here: a list of characters with codes up to 255,
  the code units \<open>U+0000\<close> to \<open>U+00FF\<close> (Latin-1). Of the white space that
  \<open>String.prototype.trim\<close> removes, that range holds TAB, LF, VT, FF, CR, the space and
  the no-break space \<open>U+00A0\<close>; of the letters that \<open>toLowerCase\<close> changes, \<open>A\<close> to
  \<open>Z\<close> and \<open>U+00C0\<close> to \<open>U+00DE\<close> without the multiplication sign \<open>U+00D7\<close>.
\<close>

definition is_space :: "char \<Rightarrow> bool" where
  "is_space c =
     (c \<in> set [CHR '' '', CHR 0x09, CHR 0x0A, CHR 0x0B, CHR 0x0C, CHR 0x0D, CHR 0xA0])"

definition trim :: "string \<Rightarrow> string" where
  "trim s = rev (dropWhile is_space (rev (dropWhile is_space s)))"

definition strip_markup :: "string \<Rightarrow> string" where
  \<comment> \<open>\<open>.replace(/[<>"'&]/g, '')\<close>\<close>
  "strip_markup s =
     filter (\<lambda>c. c \<notin> set [CHR ''<'', CHR ''>'', CHR 0x22, CHR 0x27, CHR ''&'']) s"

definition sanitize :: "string \<Rightarrow> string" where
  "sanitize s = strip_markup (trim s)"

definition ascii_lower_char :: "char \<Rightarrow> char" where
  "ascii_lower_char c =
     (let n = (of_char c :: nat) in if 65 \<le> n \<and> n \<le> 90 then char_of (n + 32) else c)"

definition ascii_lower :: "string \<Rightarrow> string" where
  \<comment> \<open>how SQLite folds the case of a name: the letters \<open>A\<close> to \<open>Z\<close> only\<close>
  "ascii_lower s = map ascii_lower_char s"

definition lower_char :: "char \<Rightarrow> char" where
  "lower_char c =
     (let n = (of_char c :: nat)
      in if (65 \<le> n \<and> n \<le> 90) \<or> (192 \<le> n \<and> n \<le> 222 \<and> n \<noteq> 215)
         then char_of (n + 32) else c)"

definition toLowerCase :: "string \<Rightarrow> string" where
  "toLowerCase s = map lower_char s"

fun digits :: "nat \<Rightarrow> nat \<Rightarrow> string" where
  \<comment> \<open>decimal digits, most significant first; the first argument bounds the recursion\<close>
  "digits 0 n = []"
| "digits (Suc fuel) n =
     (if n < 10 then [char_of (48 + n)] else digits fuel (n div 10) @ [char_of (48 + n mod 10)])"

definition show_nat :: "nat \<Rightarrow> string" where
  \<comment> \<open>a number inside a template string\<close>
  "show_nat n = digits (Suc n) n"


section \<open>The account and event tables\<close>

text \<open>
  A row maps column names to values; a table keeps its rows in insertion order together
  with the counter behind \<open>AUTOINCREMENT\<close>. The constraints of \<open>createTables\<close> that
  the statements of the code can violate are checked by \<open>sql_insert\<close> and
  \<open>sql_update\<close>: \<open>NOT NULL\<close> and \<open>UNIQUE\<close>. The key of an update is spliced into the
  statement as \<open>SET key = ?\<close>. SQLite resolves a column name without regard to the case
  of the letters \<open>A\<close> to \<open>Z\<close>, allows white space around it and quotes around the name;
  \<open>resolve_column\<close> does the same. Two things are left out. A key that is more than a
  name (a name followed by a comment, or text that continues the statement) makes the
  statement fail here, where SQLite may accept it, still as one \<open>UPDATE\<close> statement. And
  a value is stored as it is bound: the conversion that the declared type of a column
  applies when a value is stored (a number written to a \<open>TEXT\<close> column becomes a text) is
  not applied.
\<close>

datatype sqlval = SNull | SInt int | SReal rat | SText string

type_synonym row = "(string \<times> sqlval) list"

record table =
  rows :: "row list"
  seq :: nat

record schema =
  columns :: "string list"
  not_null :: "string list"
  unique_cols :: "string list"
  defaults :: "env \<Rightarrow> row"

definition col :: "row \<Rightarrow> string \<Rightarrow> sqlval" where
  "col r c = (case map_of r c of Some v \<Rightarrow> v | None \<Rightarrow> SNull)"

definition row_id :: "row \<Rightarrow> sqlval" where
  "row_id r = col r ''id''"

definition users_schema :: schema where
  "users_schema =
     \<lparr>columns = [''id'', ''fullname'', ''email'', ''username'', ''role'', ''password'',
                 ''created_at'', ''is_active'', ''last_login''],
      not_null = [''fullname'', ''email'', ''username'', ''role'', ''password''],
      unique_cols = [''id'', ''email'', ''username''],
      defaults = (\<lambda>ev. [(''role'', SText ''user''), (''created_at'', SText (now ev)),
                          (''is_active'', SInt 1)])\<rparr>"

definition admins_schema :: schema where
  "admins_schema =
     \<lparr>columns = [''id'', ''fullname'', ''email'', ''username'', ''role'', ''password'',
                 ''department'', ''gov_id'', ''registration_id'', ''status'', ''created_at'',
                 ''is_active'', ''last_login''],
      not_null = [''fullname'', ''email'', ''username'', ''role'', ''password''],
      unique_cols = [''id'', ''email'', ''username'', ''gov_id''],
      defaults = (\<lambda>ev. [(''role'', SText ''admin''), (''status'', SText ''active''),
                          (''created_at'', SText (now ev)), (''is_active'', SInt 1)])\<rparr>"

definition activity_logs_schema :: "string \<Rightarrow> schema" where
  "activity_logs_schema userIdField =
     \<lparr>columns = [''id'', userIdField, ''username'', ''action'', ''timestamp'', ''ip_address''],
      not_null = [''action''],
      unique_cols = [''id''],
      defaults = (\<lambda>ev. [(''timestamp'', SText (now ev))])\<rparr>"


definition violates :: "schema \<Rightarrow> row list \<Rightarrow> row \<Rightarrow> error option" where
  \<comment> \<open>the constraint that row \<open>r\<close> breaks next to the rows \<open>others\<close>, if any\<close>
  "violates sch others r =
     (if list_ex (\<lambda>c. col r c = SNull) (not_null sch) then Some NotNullConstraintFailed
      else if list_ex (\<lambda>c. col r c \<noteq> SNull \<and> list_ex (\<lambda>r'. col r' c = col r c) others)
                (unique_cols sch)
      then Some UniqueConstraintFailed
      else None)"

definition max_id :: "row list \<Rightarrow> nat" where
  "max_id rs = foldr (\<lambda>r m. case row_id r of SInt i \<Rightarrow> max (nat i) m | _ \<Rightarrow> m) rs 0"

definition sql_insert :: "env \<Rightarrow> schema \<Rightarrow> table \<Rightarrow> row \<Rightarrow> error + nat \<times> table" where
  \<comment> \<open>\<open>INSERT INTO t (...) VALUES (...)\<close>; the result carries \<open>this.lastID\<close>\<close>
  "sql_insert ev sch t vals =
     (let i = Suc (max (seq t) (max_id (rows t)));
          r = (''id'', SInt (int i)) #
              map (\<lambda>c. (c, case map_of vals c of Some v \<Rightarrow> v | None \<Rightarrow> col (defaults sch ev) c))
                  (tl (columns sch))
      in case violates sch (rows t) r of
           Some e \<Rightarrow> Inl e
         | None \<Rightarrow> Inr (i, \<lparr>rows = rows t @ [r], seq = i\<rparr>))"

definition sql_space :: "char \<Rightarrow> bool" where
  \<comment> \<open>the white space between the tokens of a statement\<close>
  "sql_space c = (c \<in> set [CHR '' '', CHR 0x09, CHR 0x0A, CHR 0x0C, CHR 0x0D])"

definition unquote :: "string \<Rightarrow> string" where
  \<comment> \<open>a name may be written in double, single or back quotes or in square brackets\<close>
  "unquote s =
     (if 2 \<le> length s \<and>
         (hd s, last s) \<in> set [(CHR 0x22, CHR 0x22), (CHR 0x27, CHR 0x27),
                               (CHR 0x60, CHR 0x60), (CHR ''['', CHR '']'')] \<and>
         last s \<notin> set (butlast (tl s))
      then butlast (tl s) else s)"

definition resolve_column :: "schema \<Rightarrow> string \<Rightarrow> string option" where
  \<comment> \<open>the column that the text \<open>k\<close> names when it stands in \<open>SET k = ?\<close>\<close>
  "resolve_column sch k =
     find (\<lambda>c. ascii_lower c
                 = ascii_lower (unquote (rev (dropWhile sql_space (rev (dropWhile sql_space k))))))
       (columns sch)"

fun apply_sets :: "schema \<Rightarrow> (string \<times> sqlval) list \<Rightarrow> row \<Rightarrow> error + row" where
  "apply_sets sch [] r = Inr r"
| "apply_sets sch ((k, v) # kvs) r =
     (case resolve_column sch k of
        None \<Rightarrow> Inl NoSuchColumn
      | Some c \<Rightarrow> apply_sets sch kvs (AList.update c v r))"

fun update_rows ::
  "schema \<Rightarrow> (string \<times> sqlval) list \<Rightarrow> nat \<Rightarrow> row list \<Rightarrow> row list \<Rightarrow> error + nat \<times> row list" where
  \<comment> \<open>rows before the current one (already updated), rows still to visit\<close>
  "update_rows sch sets i done [] = Inr (0, done)"
| "update_rows sch sets i done (r # rs) =
     (if row_id r = SInt (int i)
      then (case apply_sets sch sets r of
              Inl e \<Rightarrow> Inl e
            | Inr r' \<Rightarrow>
                (case violates sch (done @ rs) r' of
                   Some e \<Rightarrow> Inl e
                 | None \<Rightarrow>
                     (case update_rows sch sets i (done @ [r']) rs of
                        Inl e \<Rightarrow> Inl e
                      | Inr (n, rs') \<Rightarrow> Inr (Suc n, rs'))))
      else update_rows sch sets i (done @ [r]) rs)"

definition sql_update ::
  "schema \<Rightarrow> table \<Rightarrow> (string \<times> sqlval) list \<Rightarrow> nat \<Rightarrow> error + nat \<times> table" where
  \<comment> \<open>\<open>UPDATE t SET k1 = ?, ... WHERE id = ?\<close>; the result carries \<open>this.changes\<close>\<close>
  "sql_update sch t sets i =
     (if sets = [] then Inl SqlSyntaxError
      else if list_ex (\<lambda>kv. resolve_column sch (fst kv) = None) sets then Inl NoSuchColumn
      else case update_rows sch sets i [] (rows t) of
             Inl e \<Rightarrow> Inl e
           | Inr (n, rs) \<Rightarrow> Inr (n, t\<lparr>rows := rs\<rparr>))"

definition sql_delete :: "table \<Rightarrow> nat \<Rightarrow> nat \<times> table" where
  \<comment> \<open>\<open>DELETE FROM t WHERE id = ?\<close>\<close>
  "sql_delete t i =
     (length (filter (\<lambda>r. row_id r = SInt (int i)) (rows t)),
      t\<lparr>rows := filter (\<lambda>r. row_id r \<noteq> SInt (int i)) (rows t)\<rparr>)"

record database =
  users :: table
  admins :: table
  user_activity_logs :: table
  admin_activity_logs :: table
  security_events :: table
  calls :: nat

definition db_call :: "env \<Rightarrow> database \<Rightarrow> bool \<times> database" where
  \<comment> \<open>every call of the database module is numbered; the environment says which fail\<close>
  "db_call ev db = (db_fails ev (calls db), db\<lparr>calls := Suc (calls db)\<rparr>)"

definition account_table :: "string \<Rightarrow> database \<Rightarrow> table" where
  \<comment> \<open>\<open>userType === 'admin' ? 'admins' : 'users'\<close>\<close>
  "account_table userType db = (if userType = ''admin'' then admins db else users db)"

definition account_schema :: "string \<Rightarrow> schema" where
  "account_schema userType = (if userType = ''admin'' then admins_schema else users_schema)"

definition set_account_table :: "string \<Rightarrow> table \<Rightarrow> database \<Rightarrow> database" where
  "set_account_table userType t db =
     (if userType = ''admin'' then db\<lparr>admins := t\<rparr> else db\<lparr>users := t\<rparr>)"


section \<open>The methods of the database module\<close>

record userData =
  ud_fullname :: string
  ud_email :: string
  ud_username :: string
  ud_role :: string
  ud_password :: string

record adminData =
  ad_fullname :: string
  ad_email :: string
  ad_username :: string
  ad_role :: string
  ad_password :: string
  ad_department :: string
  ad_govId :: string
  ad_registrationId :: string
  ad_status :: string
  ad_isActive :: bool

definition createUser ::
  "env \<Rightarrow> database \<Rightarrow> userData \<Rightarrow> string \<Rightarrow> (error + nat) \<times> database" where
  \<comment> \<open>\<open>userData.role || userType\<close>: an empty role gives way to the user type\<close>
  "createUser ev db ud userType =
     (let hashedPassword = hashSync ev (ud_password ud);
          (fails, db1) = db_call ev db
      in if fails then (Inl SqliteError, db1)
         else case sql_insert ev (account_schema userType) (account_table userType db1)
                     [(''fullname'', SText (ud_fullname ud)), (''email'', SText (ud_email ud)),
                      (''username'', SText (ud_username ud)),
                      (''role'', SText (if ud_role ud \<noteq> [] then ud_role ud else userType)),
                      (''password'', SText hashedPassword)] of
                Inl e \<Rightarrow> (Inl e, db1)
              | Inr (i, t) \<Rightarrow> (Inr i, set_account_table userType t db1))"

definition createAdmin :: "env \<Rightarrow> database \<Rightarrow> adminData \<Rightarrow> (error + nat) \<times> database" where
  \<comment> \<open>\<open>status || 'pending_verification'\<close>, \<open>isActive || false\<close>\<close>
  "createAdmin ev db ad =
     (let hashedPassword = hashSync ev (ad_password ad);
          (fails, db1) = db_call ev db
      in if fails then (Inl SqliteError, db1)
         else case sql_insert ev admins_schema (admins db1)
                     [(''fullname'', SText (ad_fullname ad)), (''email'', SText (ad_email ad)),
                      (''username'', SText (ad_username ad)), (''role'', SText (ad_role ad)),
                      (''password'', SText hashedPassword),
                      (''department'', SText (ad_department ad)),
                      (''gov_id'', SText (ad_govId ad)),
                      (''registration_id'', SText (ad_registrationId ad)),
                      (''status'', SText (if ad_status ad \<noteq> [] then ad_status ad
                                          else ''pending_verification'')),
                      (''is_active'', SInt (if ad_isActive ad then 1 else 0)),
                      (''created_at'', SText (now ev))] of
                Inl e \<Rightarrow> (Inl e, db1)
              | Inr (i, t) \<Rightarrow> (Inr i, db1\<lparr>admins := t\<rparr>))"

definition seedInitialData :: "env \<Rightarrow> database \<Rightarrow> (error + unit) \<times> database" where
  \<comment> \<open>\<open>INSERT OR IGNORE\<close>: a constraint violation skips the row without an error; the
      id that was drawn for the row is used up\<close>
  "seedInitialData ev db =
     (let hashedAdminPassword = hashSync ev ''admin123'';
          (fails, db1) = db_call ev db
      in if fails then (Inl SqliteError, db1)
         else case sql_insert ev admins_schema (admins db1)
                     [(''fullname'', SText ''System Administrator''),
                      (''email'', SText ''admin@wifi-monitor.com''),
                      (''username'', SText ''admin''), (''role'', SText ''admin''),
                      (''password'', SText hashedAdminPassword)] of
                Inl e \<Rightarrow>
                  (Inr (), db1\<lparr>admins := (admins db1)
                     \<lparr>seq := Suc (max (seq (admins db1)) (max_id (rows (admins db1))))\<rparr>\<rparr>)
              | Inr (i, t) \<Rightarrow> (Inr (), db1\<lparr>admins := t\<rparr>))"

definition may_log_in :: "string \<Rightarrow> string \<Rightarrow> row \<Rightarrow> bool" where
  \<comment> \<open>the \<open>WHERE\<close> clause of \<open>authenticateUser\<close>\<close>
  "may_log_in userType uname r =
     (col r ''username'' = SText uname \<and>
      (col r ''is_active'' = SInt 1 \<or>
       (userType = ''admin'' \<and> col r ''status'' = SText ''pending_verification'')))"

definition password_valid :: "env \<Rightarrow> json \<Rightarrow> row \<Rightarrow> bool option" where
  \<comment> \<open>\<open>bcrypt.compareSync(password, row.password)\<close>; it throws (\<open>None\<close>) unless both
      arguments are strings\<close>
  "password_valid ev pw r =
     (case pw of
        JStr p \<Rightarrow> (case col r ''password'' of SText h \<Rightarrow> Some (compareSync ev p h) | _ \<Rightarrow> None)
      | _ \<Rightarrow> None)"

definition authenticateUser ::
  "env \<Rightarrow> database \<Rightarrow> string \<Rightarrow> json \<Rightarrow> string \<Rightarrow> (error + row option) \<times> database" where
  \<comment> \<open>on success \<open>last_login\<close> is set by a statement whose outcome nobody awaits.
      The comparison runs in the callback of \<open>db.get\<close>: when it throws, the promise is
      neither resolved nor rejected (\<open>Inl BcryptError\<close>)\<close>
  "authenticateUser ev db uname pw userType =
     (let (fails, db1) = db_call ev db
      in if fails then (Inl SqliteError, db1)
         else case find (may_log_in userType uname) (rows (account_table userType db1)) of
                None \<Rightarrow> (Inr None, db1)
              | Some r \<Rightarrow>
                  (case password_valid ev pw r of
                     None \<Rightarrow> (Inl BcryptError, db1)
                   | Some valid \<Rightarrow>
                       if valid
                       then (Inr (Some r),
                             set_account_table userType
                               ((account_table userType db1)
                                  \<lparr>rows := map (\<lambda>r'. if row_id r' = row_id r
                                                      then AList.update ''last_login'' (SText (now ev)) r'
                                                      else r')
                                               (rows (account_table userType db1))\<rparr>) db1)
                       else (Inr None, db1)))"

definition updateUser ::
  "env \<Rightarrow> database \<Rightarrow> nat \<Rightarrow> (string \<times> sqlval) list \<Rightarrow> string \<Rightarrow> (error + nat) \<times> database" where
  "updateUser ev db userId updates userType =
     (let (fails, db1) = db_call ev db
      in if fails then (Inl SqliteError, db1)
         else case sql_update (account_schema userType) (account_table userType db1)
                     updates userId of
                Inl e \<Rightarrow> (Inl e, db1)
              | Inr (n, t) \<Rightarrow> (Inr n, set_account_table userType t db1))"

definition updateAdmin ::
  "env \<Rightarrow> database \<Rightarrow> nat \<Rightarrow> (string \<times> sqlval) list \<Rightarrow> (error + nat) \<times> database" where
  "updateAdmin ev db userId updates = updateUser ev db userId updates ''admin''"

definition deleteUser ::
  "env \<Rightarrow> database \<Rightarrow> nat \<Rightarrow> string \<Rightarrow> (error + nat) \<times> database" where
  "deleteUser ev db userId userType =
     (let (fails, db1) = db_call ev db
      in if fails then (Inl SqliteError, db1)
         else case sql_delete (account_table userType db1) userId of
                (n, t) \<Rightarrow> (Inr n, set_account_table userType t db1))"

definition logActivity ::
  "env \<Rightarrow> database \<Rightarrow> sqlval \<Rightarrow> sqlval \<Rightarrow> string \<Rightarrow> sqlval \<Rightarrow> string
     \<Rightarrow> (error + nat) \<times> database" where
  "logActivity ev db userId uname action ipAddress userType =
     (let (fails, db1) = db_call ev db;
          userIdField = (if userType = ''admin'' then ''admin_id'' else ''user_id'');
          logs = (if userType = ''admin'' then admin_activity_logs db1
                  else user_activity_logs db1)
      in if fails then (Inl SqliteError, db1)
         else case sql_insert ev (activity_logs_schema userIdField) logs
                     [(userIdField, userId), (''username'', uname),
                      (''action'', SText action), (''ip_address'', ipAddress)] of
                Inl e \<Rightarrow> (Inl e, db1)
              | Inr (i, t) \<Rightarrow>
                  (Inr i, if userType = ''admin'' then db1\<lparr>admin_activity_logs := t\<rparr>
                          else db1\<lparr>user_activity_logs := t\<rparr>))"



text \<open>
  The class \<open>Database\<close> defines no method \<open>getUserByUsername\<close> and none called
  \<open>getUserByEmail\<close>: on the exported object these properties are \<open>undefined\<close>. A
  property of the module is modelled as an optional function, \<open>None\<close> when the class
  does not define it.
\<close>

definition database_getUserByUsername ::
  "(env \<Rightarrow> database \<Rightarrow> string \<Rightarrow> (error + row option) \<times> database) option" where
  "database_getUserByUsername = None"

definition database_getUserByEmail ::
  "(env \<Rightarrow> database \<Rightarrow> string \<Rightarrow> (error + row option) \<times> database) option" where
  "database_getUserByEmail = None"


section \<open>Sessions, responses and the page routes\<close>

text \<open>
  Of what the application installs in front of every route, the security headers, the body
  parsers and the session store are not modelled: a handler below describes a request
  whose body has been parsed, with the session that the store keeps for the client. The
  rate limiters are modelled for the login route, in its section; the page routes and the
  registration routes below describe a request that the general limiter lets through. The
  fields of a registration body are strings or missing.
\<close>

record session =
  userId :: "sqlval option"
  userRole :: "sqlval option"
  session_username :: "sqlval option"
  loginType :: "json option"
  loginAttempts :: "nat option"

datatype response =
  Json nat json                    \<comment> \<open>\<open>res.status(n).json(v)\<close>\<close>
  | Render string "string option"  \<comment> \<open>\<open>res.render(view, {wifiData, userRole})\<close>\<close>
  | Redirect string
  | SendText nat string            \<comment> \<open>\<open>res.status(n).send(text)\<close>\<close>

fun status_code :: "response \<Rightarrow> nat" where
  "status_code (Json n v) = n"
| "status_code (Render view r) = 200"
| "status_code (Redirect url) = 302"
| "status_code (SendText n t) = n"

fun truthy :: "sqlval \<Rightarrow> bool" where
  "truthy SNull = False"
| "truthy (SInt i) = (i \<noteq> 0)"
| "truthy (SReal r) = (r \<noteq> 0)"
| "truthy (SText t) = (t \<noteq> [])"

type_synonym middleware = "session \<Rightarrow> response option"

definition requireAuth :: middleware where
  \<comment> \<open>\<open>None\<close> stands for \<open>next()\<close>\<close>
  "requireAuth sess =
     (case userId sess of
        Some v \<Rightarrow> if truthy v then None else Some (Redirect ''/login'')
      | None \<Rightarrow> Some (Redirect ''/login''))"

definition requireRole :: "string \<Rightarrow> middleware" where
  "requireRole r sess =
     (if userRole sess = Some (SText r) then None else Some (SendText 403 ''Access denied''))"

fun run_handlers :: "middleware list \<Rightarrow> response \<Rightarrow> session \<Rightarrow> response" where
  \<comment> \<open>the handlers of a route in order; the last one answers\<close>
  "run_handlers [] page sess = page"
| "run_handlers (m # ms) page sess =
     (case m sess of Some r \<Rightarrow> r | None \<Rightarrow> run_handlers ms page sess)"

definition page_routes :: "(string \<times> middleware list \<times> response) list" where
  \<comment> \<open>the \<open>app.get\<close> registrations of the rendered pages, with the handlers each one lists\<close>
  "page_routes =
     [(''/'', [], Render ''login'' None),
      (''/login'', [], Render ''login'' None),
      (''/signup'', [], Render ''signup'' None),
      (''/dashboard'', [], Render ''dashboard'' (Some ''user'')),
      (''/admin'', [], Render ''admin'' (Some ''admin'')),
      (''/viewer'', [], Render ''viewer'' (Some ''viewer''))]"

definition app_get :: "string \<Rightarrow> session \<Rightarrow> response option" where
  "app_get path sess =
     (case map_of page_routes path of
        None \<Rightarrow> None
      | Some (ms, page) \<Rightarrow> Some (run_handlers ms page sess))"


section \<open>Login\<close>




definition falsy :: "string option \<Rightarrow> bool" where
  \<comment> \<open>\<open>!x\<close> for a field that is a string or missing\<close>
  "falsy x = (x = None \<or> x = Some [])"

definition str :: "string option \<Rightarrow> string" where
  \<comment> \<open>the text of a field that has passed the \<open>!x\<close> test\<close>
  "str x = (case x of Some s \<Rightarrow> s | None \<Rightarrow> [])"



definition error_json :: "string \<Rightarrow> json" where
  "error_json msg = JObj [(''error'', JStr msg)]"






definition sent :: "response \<times> session \<times> database \<Rightarrow> (error + response) \<times> session \<times> database" where
  \<comment> \<open>the handler has answered\<close>
  "sent x = (Inr (fst x), snd x)"





section \<open>Registration\<close>

record register_body =
  rb_fullname :: "string option"
  rb_email :: "string option"
  rb_username :: "string option"
  rb_role :: "string option"
  rb_password :: "string option"
  rb_userType :: "string option"

definition register_user ::
  "env \<Rightarrow> string \<Rightarrow> register_body \<Rightarrow> database \<Rightarrow> response \<times> database" where
  \<comment> \<open>from "Create user" on: \<open>createUser\<close> is called without its second argument\<close>
  "register_user ev ip body db =
     (case createUser ev db
             \<lparr>ud_fullname = strip_markup (trim (str (rb_fullname body))),
              ud_email = toLowerCase (trim (str (rb_email body))),
              ud_username = sanitize (str (rb_username body)),
              ud_role = str (rb_role body), ud_password = str (rb_password body)\<rparr> ''user'' of
        (Inl e, db1) \<Rightarrow> (Json 500 (error_json ''Registration failed''), db1)
      | (Inr i, db1) \<Rightarrow>
          (case logActivity ev db1 (SInt (int i)) (SText (sanitize (str (rb_username body))))
                  ''User registered'' (SText ip)
                  (case rb_userType body of Some t \<Rightarrow> t | None \<Rightarrow> ''user'') of
             (Inl e, db2) \<Rightarrow> (Json 500 (error_json ''Registration failed''), db2)
           | (Inr _, db2) \<Rightarrow>
               (Json 201 (JObj [(''success'', JBool True),
                                (''message'', JStr ''Registration successful''),
                                (''userId'', JInt (int i))]), db2)))"

definition auth_register ::
  "env \<Rightarrow> string \<Rightarrow> register_body \<Rightarrow> database \<Rightarrow> response \<times> database" where
  \<comment> \<open>\<open>app.post('/auth/register', ...)\<close>: calling a property that is \<open>undefined\<close> throws
      a \<open>TypeError\<close> inside the \<open>try\<close>, and the \<open>catch\<close> answers 500\<close>
  "auth_register ev ip body db =
     (if falsy (rb_fullname body) \<or> falsy (rb_email body) \<or> falsy (rb_username body)
         \<or> falsy (rb_role body) \<or> falsy (rb_password body)
      then (Json 400 (error_json ''All fields are required''), db)
      else case database_getUserByUsername of
             None \<Rightarrow> (Json 500 (error_json ''Registration failed''), db)
           | Some getUserByUsername \<Rightarrow>
               (case getUserByUsername ev db (sanitize (str (rb_username body))) of
                  (Inl e, db1) \<Rightarrow> (Json 500 (error_json ''Registration failed''), db1)
                | (Inr (Some existingUser), db1) \<Rightarrow>
                    (Json 409 (error_json ''Username already exists''), db1)
                | (Inr None, db1) \<Rightarrow>
                    (case database_getUserByEmail of
                       None \<Rightarrow> (Json 500 (error_json ''Registration failed''), db1)
                     | Some getUserByEmail \<Rightarrow>
                         (case getUserByEmail ev db1 (toLowerCase (trim (str (rb_email body)))) of
                            (Inl e, db2) \<Rightarrow> (Json 500 (error_json ''Registration failed''), db2)
                          | (Inr (Some existingEmail), db2) \<Rightarrow>
                              (Json 409 (error_json ''Email already registered''), db2)
                          | (Inr None, db2) \<Rightarrow> register_user ev ip body db2))))"


section \<open>The user management endpoints of the REST server\<close>

definition api_auth_register ::
  "env \<Rightarrow> register_body \<Rightarrow> database \<Rightarrow> response \<times> database" where
  \<comment> \<open>\<open>app.post('/api/auth/register', ...)\<close>: no look-up before the insert; the
      \<open>UNIQUE\<close> constraint answers 400\<close>
  "api_auth_register ev body db =
     (if falsy (rb_fullname body) \<or> falsy (rb_email body) \<or> falsy (rb_username body)
         \<or> falsy (rb_role body) \<or> falsy (rb_password body)
      then (Json 400 (error_json ''All fields are required''), db)
      else if length (str (rb_password body)) < 8
      then (Json 400 (error_json ''Password must be at least 8 characters long''), db)
      else if str (rb_role body) \<notin> set [''user'', ''admin'', ''viewer'']
      then (Json 400 (error_json ''Invalid role''), db)
      else case createUser ev db
                  \<lparr>ud_fullname = str (rb_fullname body), ud_email = str (rb_email body),
                   ud_username = str (rb_username body), ud_role = str (rb_role body),
                   ud_password = str (rb_password body)\<rparr> ''user'' of
             (Inl e, db1) \<Rightarrow>
               (if e = UniqueConstraintFailed
                then (Json 400 (error_json ''Username or email already exists''), db1)
                else (Json 500 (error_json ''Failed to create user''), db1))
           | (Inr i, db1) \<Rightarrow>
               (case logActivity ev db1 SNull (SText ''system'')
                       (''Created new user: '' @ str (rb_username body) @ '' ('' @
                          str (rb_role body) @ '')'') SNull ''user'' of
                  (Inl e, db2) \<Rightarrow> (Json 500 (error_json ''Failed to create user''), db2)
                | (Inr _, db2) \<Rightarrow>
                    (Json 201 (JObj
                       [(''message'', JStr ''User created successfully''),
                        (''user'', JObj
                           [(''id'', JInt (int i)), (''fullname'', JStr (str (rb_fullname body))),
                            (''email'', JStr (str (rb_email body))),
                            (''username'', JStr (str (rb_username body))),
                            (''role'', JStr (str (rb_role body)))])]), db2)))"

definition remove_sensitive :: "(string \<times> sqlval) list \<Rightarrow> (string \<times> sqlval) list" where
  \<comment> \<open>\<open>delete updates.id; delete updates.created_at; delete updates.password;\<close>
      each removes the property of exactly that name\<close>
  "remove_sensitive updates =
     filter (\<lambda>kv. fst kv \<noteq> ''id'' \<and> fst kv \<noteq> ''created_at'' \<and> fst kv \<noteq> ''password'') updates"

definition api_users_put ::
  "env \<Rightarrow> nat \<Rightarrow> (string \<times> sqlval) list \<Rightarrow> database \<Rightarrow> response \<times> database" where
  \<comment> \<open>\<open>app.put('/api/users/:id', ...)\<close>; the body is a flat object, its values as the
      database binding takes them\<close>
  "api_users_put ev uid body db =
     (case updateUser ev db uid (remove_sensitive body) ''user'' of
        (Inl e, db1) \<Rightarrow> (Json 500 (error_json ''Failed to update user''), db1)
      | (Inr changes, db1) \<Rightarrow>
          if 0 < changes
          then (case logActivity ev db1 SNull (SText ''system'')
                       (''Updated user ID: '' @ show_nat uid) SNull ''user'' of
                  (Inl e, db2) \<Rightarrow> (Json 500 (error_json ''Failed to update user''), db2)
                | (Inr _, db2) \<Rightarrow>
                    (Json 200 (JObj [(''message'', JStr ''User updated successfully'')]), db2))
          else (Json 404 (error_json ''User not found''), db1))"

definition api_users_delete :: "env \<Rightarrow> nat \<Rightarrow> database \<Rightarrow> response \<times> database" where
  \<comment> \<open>\<open>app.delete('/api/users/:id', ...)\<close>\<close>
  "api_users_delete ev uid db =
     (case deleteUser ev db uid ''user'' of
        (Inl e, db1) \<Rightarrow> (Json 500 (error_json ''Failed to delete user''), db1)
      | (Inr changes, db1) \<Rightarrow>
          if 0 < changes
          then (case logActivity ev db1 SNull (SText ''system'')
                       (''Deleted user ID: '' @ show_nat uid) SNull ''user'' of
                  (Inl e, db2) \<Rightarrow> (Json 500 (error_json ''Failed to delete user''), db2)
                | (Inr _, db2) \<Rightarrow>
                    (Json 200 (JObj [(''message'', JStr ''User deleted successfully'')]), db2))
          else (Json 404 (error_json ''User not found''), db1))"


section \<open>Notions used to state the properties\<close>

definition status_values :: "string set" where
  "status_values = {''normal'', ''warning'', ''critical''}"

definition statuses_valid :: "district list \<Rightarrow> bool" where
  "statuses_valid ds = list_all (\<lambda>d. status d \<in> status_values) ds"

definition step_district :: "env \<Rightarrow> nat \<Rightarrow> district \<Rightarrow> district" where
  \<comment> \<open>the district as the loop body leaves it when its draws start at call \<open>n\<close>\<close>
  "step_district ev n d =
     d\<lparr>active_hotspots :=
         max 0 (min (total_hotspots d) (active_hotspots d + \<lfloor>js_mul (draws ev n) 20\<rfloor> - 10)),
       utilization := max 0 (min 100 (utilization d + \<lfloor>js_mul (draws ev (Suc n)) 8\<rfloor> - 4)),
       status := newStatus (draws ev (Suc (Suc n))) (status d),
       last_ping := now ev\<rparr>"

fun step_districts :: "env \<Rightarrow> nat \<Rightarrow> district list \<Rightarrow> district list" where
  "step_districts ev n [] = []"
| "step_districts ev n (d # ds) = step_district ev n d # step_districts ev (n + 3) ds"

definition perturbed :: "district \<Rightarrow> district \<Rightarrow> bool" where
  \<comment> \<open>\<open>d'\<close> is \<open>d\<close> after a bounded step of each counter, clamped to its range\<close>
  "perturbed d d' =
     ((\<exists>i\<in>{-10..9}. active_hotspots d' = max 0 (min (total_hotspots d) (active_hotspots d + i))) \<and>
      (\<exists>i\<in>{-4..3}. utilization d' = max 0 (min 100 (utilization d + i))) \<and>
      0 \<le> active_hotspots d' \<and> active_hotspots d' \<le> max 0 (total_hotspots d) \<and>
      0 \<le> utilization d' \<and> utilization d' \<le> 100 \<and>
      total_hotspots d' = total_hotspots d \<and> district_id d' = district_id d \<and> name d' = name d)"

definition unit_draws :: "env \<Rightarrow> bool" where
  \<comment> \<open>every draw is a double in \<open>[0, 1)\<close>, as \<open>Math.random()\<close> promises\<close>
  "unit_draws ev =
     (\<forall>k. 0 \<le> draws ev k \<and> draws ev k \<le> 1 - 1 / 2 ^ 53 \<and> fl (draws ev k) = draws ev k)"

definition db_ok :: "env \<Rightarrow> nat \<Rightarrow> nat \<Rightarrow> bool" where
  \<comment> \<open>none of the \<open>m\<close> database calls from call number \<open>c\<close> on is rejected\<close>
  "db_ok ev c m = (\<forall>k<m. \<not> db_fails ev (c + k))"

fun first_rejected :: "env \<Rightarrow> nat \<Rightarrow> nat \<Rightarrow> nat" where
  \<comment> \<open>of the \<open>m\<close> database calls from call number \<open>c\<close> on, how many are accepted before
      the first one that is rejected (\<open>m\<close> when none is)\<close>
  "first_rejected ev c 0 = 0"
| "first_rejected ev c (Suc m) =
     (if db_fails ev c then 0 else Suc (first_rejected ev (Suc c) m))"

definition tick_writes :: "server \<Rightarrow> nat" where
  \<comment> \<open>the database writes of a whole tick: one per district, then the metrics row\<close>
  "tick_writes s = Suc (length (districts (wifi s)))"

definition accepted_writes :: "env \<Rightarrow> server \<Rightarrow> nat" where
  \<comment> \<open>how many writes of the tick the database accepts before it rejects one\<close>
  "accepted_writes ev s = first_rejected ev (db_calls (wifiDb s)) (tick_writes s)"

definition open_clients :: "server \<Rightarrow> nat list" where
  "open_clients s = map fst (filter (\<lambda>c. snd c = OPEN) (clients s))"

definition broadcast_messages :: "server \<Rightarrow> wifiData \<Rightarrow> (nat \<times> json) list" where
  \<comment> \<open>the \<open>data_update\<close> message for \<open>w\<close>, once for every open client\<close>
  "broadcast_messages s w = map (\<lambda>c. (c, data_update_message w)) (open_clients s)"

definition sum_total_hotspots :: "district list \<Rightarrow> int" where
  "sum_total_hotspots ds = sum_list (map total_hotspots ds)"

definition sum_active_hotspots :: "district list \<Rightarrow> int" where
  "sum_active_hotspots ds = sum_list (map active_hotspots ds)"

definition is_critical :: "district \<Rightarrow> bool" where
  "is_critical d = (status d = ''critical'')"

definition new_messages :: "env \<Rightarrow> event \<Rightarrow> server \<Rightarrow> (nat \<times> string option) list" where
  \<comment> \<open>what handling the event sends: the receiver and the envelope type of each message\<close>
  "new_messages ev e s =
     map (\<lambda>m. (fst m, envelope_type (snd m)))
         (drop (length (outbox s)) (outbox (handle ev e s)))"

definition data_updates_to :: "nat list \<Rightarrow> (nat \<times> string option) list" where
  "data_updates_to cs = map (\<lambda>c. (c, Some ''data_update'')) cs"

definition username_taken :: "database \<Rightarrow> string \<Rightarrow> bool" where
  "username_taken db u = list_ex (\<lambda>r. col r ''username'' = SText u) (rows (users db))"













definition answered :: "error + response \<Rightarrow> nat option" where
  \<comment> \<open>the status of the response, \<open>None\<close> when no response is sent\<close>
  "answered x = (case x of Inl e \<Rightarrow> None | Inr r \<Rightarrow> Some (status_code r))"

definition new_events :: "database \<Rightarrow> database \<Rightarrow> row list" where
  \<comment> \<open>the security events of \<open>db'\<close> after those that \<open>db\<close> has\<close>
  "new_events db db' = drop (length (rows (security_events db))) (rows (security_events db'))"

definition stored_passwords :: "table \<Rightarrow> sqlval list" where
  "stored_passwords t = map (\<lambda>r. col r ''password'') (rows t)"

definition deactivate :: "nat \<Rightarrow> row \<Rightarrow> row" where
  \<comment> \<open>the row after \<open>is_active\<close> has been set to 0 in the account of the given id\<close>
  "deactivate i r = (if row_id r = SInt (int i) then AList.update ''is_active'' (SInt 0) r else r)"

datatype account_op =
  CreateUser userData string
  | CreateAdmin adminData
  | SeedInitialData
  | AuthenticateUser string json string
  | UpdateUser nat "(string \<times> sqlval) list" string
  | DeleteUser nat string

fun run_op :: "env \<Rightarrow> account_op \<Rightarrow> database \<Rightarrow> database" where
  \<comment> \<open>the database after one call of a method that writes to an account table\<close>
  "run_op ev (CreateUser ud t) db = snd (createUser ev db ud t)"
| "run_op ev (CreateAdmin ad) db = snd (createAdmin ev db ad)"
| "run_op ev SeedInitialData db = snd (seedInitialData ev db)"
| "run_op ev (AuthenticateUser u pw t) db = snd (authenticateUser ev db u pw t)"
| "run_op ev (UpdateUser i ups t) db = snd (updateUser ev db i ups t)"
| "run_op ev (DeleteUser i t) db = snd (deleteUser ev db i t)"

fun is_delete :: "account_op \<Rightarrow> bool" where
  "is_delete (DeleteUser i t) = True"
| "is_delete _ = False"

definition account_count :: "database \<Rightarrow> nat \<times> nat" where
  \<comment> \<open>the number of rows of the \<open>users\<close> and of the \<open>admins\<close> table\<close>
  "account_count db = (length (rows (users db)), length (rows (admins db)))"

definition without_id :: "nat \<Rightarrow> row list \<Rightarrow> row list" where
  "without_id i rs = filter (\<lambda>r. row_id r \<noteq> SInt (int i)) rs"


definition request_update :: json where
  "request_update = JObj [(''type'', JStr ''request_update'')]"

definition halfway :: "int \<Rightarrow> int \<Rightarrow> bool" where
  \<comment> \<open>\<open>100 * a / t\<close> lies exactly halfway between two integers\<close>
  "halfway a t = ((2 * t) dvd (200 * a + t))"

definition exact_percentage :: "district list \<Rightarrow> rat" where
  \<comment> \<open>\<open>100 * sum of active_hotspots / sum of total_hotspots\<close>, without rounding\<close>
  "exact_percentage ds =
     100 * of_int (sum_active_hotspots ds) / of_int (sum_total_hotspots ds)"

definition envelopes_only :: "(nat \<times> json) list \<Rightarrow> bool" where
  \<comment> \<open>every message is a \<open>{type, data}\<close> object of one of the two types\<close>
  "envelopes_only ms =
     list_all (\<lambda>m. envelope_type (snd m) = Some ''initial_data'' \<or>
                    envelope_type (snd m) = Some ''data_update'') ms"

fun run :: "env \<Rightarrow> event list \<Rightarrow> server \<Rightarrow> server" where
  \<comment> \<open>the server after a sequence of events\<close>
  "run ev [] s = s"
| "run ev (e # es) s = run ev es (handle ev e s)"


section \<open>Concrete inputs\<close>

definition example_env :: env where
  "example_env = \<lparr>draws = (\<lambda>n. 1 / 2), db_fails = (\<lambda>n. False),
     now = ''2024-01-01T00:00:00.000Z'', hashSync = (\<lambda>p. ''$2b$10$'' @ rev p),
     compareSync = (\<lambda>p h. h = ''$2b$10$'' @ rev p)\<rparr>"

definition db_down_env :: env where
  "db_down_env = example_env\<lparr>db_fails := (\<lambda>n. True)\<rparr>"

definition example_district :: district where
  "example_district = \<lparr>district_id = 1, name = ''North District'', total_hotspots = 1000,
     active_hotspots = 575, utilization = 60, status = ''normal'', last_ping = ''''\<rparr>"

definition example_wifi :: wifiData where
  "example_wifi = \<lparr>totalHotspots = 12500, activeHotspots = 9800, wifi_utilization = 62,
     criticalDistricts = 118, districts = [example_district], lastUpdated = ''''\<rparr>"

definition example_wifi_db :: wifi_db where
  "example_wifi_db = \<lparr>districts_tbl = [example_district], wifi_metrics = [], db_calls = 0\<rparr>"

definition example_server :: server where
  "example_server = \<lparr>wifi = example_wifi, wifiDb = example_wifi_db, rng_calls = 0,
     clients = [(1, OPEN), (2, CLOSED)], outbox = []\<rparr>"

definition empty_session :: session where
  "empty_session = \<lparr>userId = None, userRole = None, session_username = None,
     loginType = None, loginAttempts = None\<rparr>"

definition empty_table :: table where
  "empty_table = \<lparr>rows = [], seq = 0\<rparr>"

definition empty_database :: database where
  "empty_database = \<lparr>users = empty_table, admins = empty_table,
     user_activity_logs = empty_table, admin_activity_logs = empty_table,
     security_events = empty_table, calls = 0\<rparr>"

definition alice :: userData where
  "alice = \<lparr>ud_fullname = ''Alice Doe'', ud_email = ''alice@example.com'',
     ud_username = ''alice'', ud_role = ''user'', ud_password = ''correct horse''\<rparr>"

definition alice_database :: database where
  \<comment> \<open>the database after \<open>alice\<close> has been created as a user\<close>
  "alice_database = snd (createUser example_env empty_database alice ''user'')"

definition alice_again :: register_body where
  "alice_again = \<lparr>rb_fullname = Some ''Alice Again'', rb_email = Some ''other@example.com'',
     rb_username = Some ''alice'', rb_role = Some ''user'', rb_password = Some ''another pw'',
     rb_userType = None\<rparr>"





definition busy_wifi :: wifiData where
  \<comment> \<open>one district with 600 of 1000 hotspots active\<close>
  "busy_wifi = example_wifi\<lparr>districts := [example_district\<lparr>active_hotspots := 600\<rparr>]\<rparr>"







definition moving_env :: env where
  \<comment> \<open>draws that move both districts of \<open>two_district_server\<close>; no call is rejected\<close>
  "moving_env = example_env\<lparr>draws :=
     (\<lambda>n. if n = 3 then 15 / 16 else if n = 4 then 1 / 8 else if n = 5 then 1 / 32
          else if n = 6 then 0 else if n = 7 then 15 / 16 else 1 / 2)\<rparr>"

definition second_call_down_env :: env where
  \<comment> \<open>the second database call from now on is rejected, no other\<close>
  "second_call_down_env = moving_env\<lparr>db_fails := (\<lambda>n. n = 1)\<rparr>"

definition south_district :: district where
  "south_district = \<lparr>district_id = 2, name = ''South District'', total_hotspots = 800,
     active_hotspots = 5, utilization = 99, status = ''warning'', last_ping = ''''\<rparr>"

definition two_district_server :: server where
  "two_district_server = example_server\<lparr>
     wifi := example_wifi\<lparr>districts := [example_district, south_district]\<rparr>,
     wifiDb := example_wifi_db\<lparr>districts_tbl := [example_district, south_district]\<rparr>\<rparr>"


section \<open>Double-precision rounding: auxiliary facts\<close>

lemma pow2_powi: "pow2 e = power_int 2 e"
  by (simp add: pow2_def power_int_def inverse_eq_divide power_one_over)

lemma pow2_pos: "0 < pow2 e"
  by (simp add: pow2_powi)

lemma pow2_diff: "pow2 (a - b) = pow2 a / pow2 b"
  by (simp add: pow2_powi power_int_diff)

lemma pow2_nat: "pow2 (int n) = 2 ^ n"
  by (simp add: pow2_def)

lemma ilog2_le:
  assumes "0 < x"
  shows "pow2 (ilog2 x) \<le> x"
proof -
  obtain p q where pq: "quotient_of x = (p, q)" by (cases "quotient_of x")
  have q: "0 < q" using quotient_of_denom_pos [OF pq] .
  have x: "x = of_int p / of_int q" using quotient_of_div [OF pq] .
  have p: "0 < p" using assms q x by (simp add: zero_less_divide_iff)
  define d where "d = bitlen p - bitlen q"
  have e: "ilog2 x = (if pow2 d \<le> x then d else d - 1)"
    by (simp add: ilog2_def pq d_def Let_def)
  show ?thesis
  proof (cases "pow2 d \<le> x")
    case True
    then show ?thesis by (simp add: e)
  next
    case False
    have bp: "1 \<le> bitlen p" "1 \<le> bitlen q"
      using bitlen_bounds [OF p] bitlen_bounds [OF q] bitlen_nonneg [of p] bitlen_nonneg [of q]
      by (smt (verit) nat_0_iff power_0 zless_nat_conj zero_less_one)+
    have lo: "pow2 (bitlen p - 1) \<le> of_int p"
    proof -
      have "(2::int) ^ nat (bitlen p - 1) \<le> p" using bitlen_bounds [OF p] by simp
      then have "of_int ((2::int) ^ nat (bitlen p - 1)) \<le> (of_int p :: rat)"
        by (simp only: of_int_le_iff)
      moreover have "pow2 (bitlen p - 1) = 2 ^ nat (bitlen p - 1)"
        using bp by (simp add: pow2_def)
      ultimately show ?thesis by simp
    qed
    have hi: "of_int q < pow2 (bitlen q)"
    proof -
      have "q < (2::int) ^ nat (bitlen q)" using bitlen_bounds [OF q] by simp
      then have "(of_int q :: rat) < of_int ((2::int) ^ nat (bitlen q))"
        by (simp only: of_int_less_iff)
      moreover have "pow2 (bitlen q) = 2 ^ nat (bitlen q)"
        using bp by (simp add: pow2_def)
      ultimately show ?thesis by simp
    qed
    have "pow2 (d - 1) = pow2 (bitlen p - 1) / pow2 (bitlen q)"
      unfolding d_def using pow2_diff [of "bitlen p - 1" "bitlen q"] by (simp add: algebra_simps)
    also have "\<dots> \<le> of_int p / pow2 (bitlen q)"
      using lo pow2_pos [of "bitlen q"] by (simp add: divide_right_mono)
    also have "\<dots> \<le> of_int p / of_int q"
      using hi p q by (simp add: frac_le)
    finally have "pow2 (d - 1) \<le> x" by (simp add: x)
    then show ?thesis using False by (simp add: e)
  qed
qed

lemma round_half_even_err: "\<bar>of_int (round_half_even y) - y\<bar> \<le> 1 / 2"
proof -
  have "of_int \<lfloor>y\<rfloor> \<le> y" "y < of_int \<lfloor>y\<rfloor> + 1" by linarith+
  then show ?thesis
    by (auto simp: round_half_even_def Let_def abs_le_iff)
qed

lemma fl_pos_err:
  assumes "0 < x"
  shows "\<bar>fl_pos x - x\<bar> \<le> x / 2 ^ 53"
proof -
  define u where "u = pow2 (ilog2 x - 52)"
  have u: "0 < u" by (simp add: u_def pow2_pos)
  have ux: "u \<le> x / 2 ^ 52"
  proof -
    have "u = pow2 (ilog2 x) / 2 ^ 52"
      unfolding u_def using pow2_diff [of "ilog2 x" 52] pow2_nat [of 52] by simp
    then show ?thesis using ilog2_le [OF assms] by (simp add: divide_right_mono)
  qed
  have "fl_pos x - x = (of_int (round_half_even (x / u)) - x / u) * u"
    using u by (simp add: fl_pos_def u_def [symmetric] Let_def algebra_simps)
  then have "\<bar>fl_pos x - x\<bar> = \<bar>of_int (round_half_even (x / u)) - x / u\<bar> * u"
    using u by (simp add: abs_mult)
  also have "\<dots> \<le> (1 / 2) * u"
    using round_half_even_err [of "x / u"] u by (simp add: mult_right_mono)
  also have "\<dots> \<le> (1 / 2) * (x / 2 ^ 52)" using ux by simp
  also have "\<dots> = x / 2 ^ 53" by simp
  finally show ?thesis .
qed

lemma fl_err: "\<bar>fl x - x\<bar> \<le> \<bar>x\<bar> / 2 ^ 53"
proof -
  consider "x = 0" | "0 < x" | "x < 0" by linarith
  then show ?thesis
  proof cases
    case 1
    then show ?thesis by (simp add: fl_def)
  next
    case 2
    then show ?thesis using fl_pos_err [OF 2] by (simp add: fl_def)
  next
    case 3
    then have "0 < - x" by simp
    from fl_pos_err [OF this] show ?thesis using 3 by (simp add: fl_def abs_if split: if_splits)
  qed
qed


lemma percentage_err:
  assumes a: "0 \<le> a" and t: "0 < t"
  shows "\<bar>js_mul (js_div a t) 100 - 100 * of_int a / of_int t\<bar>
           \<le> 100 * (of_int a / of_int t) * (2 + 1 / 2 ^ 53) / 2 ^ 53"
proof -
  define q :: rat where "q = of_int a / of_int t"
  define y where "y = fl q"
  define z where "z = fl (y * 100)"
  define eps :: rat where "eps = 1 / 2 ^ 53"
  have q0: "0 \<le> q" using a t by (simp add: q_def)
  have e1: "\<bar>y - q\<bar> \<le> q * eps"
    using fl_err [of q] q0 by (simp add: y_def eps_def)
  have y0: "0 \<le> y"
  proof -
    have "q - q * eps \<le> y" using e1 by (simp add: abs_le_iff)
    moreover have "0 \<le> q - q * eps"
    proof -
      have "q * eps \<le> q * 1" by (rule mult_left_mono [OF _ q0]) (simp add: eps_def)
      then show ?thesis by simp
    qed
    ultimately show ?thesis by linarith
  qed
  have y1: "y \<le> q + q * eps" using e1 by (simp add: abs_le_iff)
  have e2: "\<bar>z - y * 100\<bar> \<le> y * 100 * eps"
    using fl_err [of "y * 100"] y0 by (simp add: z_def eps_def)
  have "y * 100 * eps \<le> (q + q * eps) * 100 * eps"
    by (intro mult_right_mono y1) (simp_all add: eps_def)
  with e2 have e3: "\<bar>z - y * 100\<bar> \<le> (q + q * eps) * 100 * eps" by linarith
  have "\<bar>z - 100 * q\<bar> \<le> \<bar>z - y * 100\<bar> + 100 * \<bar>y - q\<bar>" by (simp add: abs_if split: if_splits)
  also have "\<dots> \<le> (q + q * eps) * 100 * eps + 100 * (q * eps)"
  proof -
    have "100 * \<bar>y - q\<bar> \<le> 100 * (q * eps)" using e1 by simp
    with e3 show ?thesis by (rule add_mono)
  qed
  also have "\<dots> = 100 * q * (2 + eps) * eps" by (simp add: algebra_simps)
  finally have "\<bar>z - 100 * q\<bar> \<le> 100 * q * (2 + eps) * eps" .
  then show ?thesis
    by (simp add: z_def y_def q_def eps_def js_mul_def js_div_def)
qed

lemma percentage_close:
  assumes a: "0 \<le> a" "a \<le> 2 ^ 44" and t: "0 < t"
  shows "\<bar>js_mul (js_div a t) 100 - 100 * of_int a / of_int t\<bar> < 1 / of_int (2 * t)"
proof -
  define c :: rat where "c = 100 * (2 + 1 / 2 ^ 53) / 2 ^ 53"
  define K :: rat where "K = 2 ^ 44"
  have c: "0 \<le> c" by (simp add: c_def)
  have cK: "c * K < 1 / 2" by (simp add: c_def K_def)
  have A: "(of_int a :: rat) \<le> K"
    unfolding K_def using a(2) by (metis of_int_le_iff of_int_numeral of_int_power)
  have T: "(0::rat) < of_int t" using t by simp
  have "of_int a / of_int t \<le> K / (of_int t :: rat)"
    using A T by (simp add: divide_right_mono)
  then have "c * (of_int a / of_int t) \<le> c * (K / of_int t)"
    using c by (rule mult_left_mono)
  also have "\<dots> = (c * K) / of_int t" by simp
  also have "\<dots> < (1 / 2) / of_int t"
    using cK T by (rule divide_strict_right_mono)
  also have "\<dots> = 1 / of_int (2 * t)" by simp
  finally have "c * (of_int a / of_int t) < 1 / of_int (2 * t)" .
  moreover have "100 * (of_int a / of_int t) * (2 + 1 / 2 ^ 53) / 2 ^ 53
                   = c * (of_int a / of_int t :: rat)"
    by (simp add: c_def)
  ultimately show ?thesis using percentage_err [OF a(1) t] by linarith
qed

lemma round_stable:
  fixes z :: rat
  assumes t: "0 < t" and close: "\<bar>z - 100 * of_int a / of_int t\<bar> < 1 / of_int (2 * t)"
  shows "(\<not> halfway a t \<longrightarrow> \<lfloor>z + 1 / 2\<rfloor> = round (100 * of_int a / of_int t :: rat)) \<and>
         (\<lfloor>z + 1 / 2\<rfloor> = round (100 * of_int a / of_int t :: rat) \<or>
          \<lfloor>z + 1 / 2\<rfloor> = round (100 * of_int a / of_int t :: rat) - 1)"
proof -
  define N where "N = 200 * a + t"
  define D where "D = 2 * t"
  define m where "m = N div D"
  define r where "r = N mod D"
  have D: "0 < D" using t by (simp add: D_def)
  have DR: "(0::rat) < of_int D" using D by simp
  have r: "0 \<le> r" "r < D" using D by (simp_all add: r_def)
  have N: "N = D * m + r" by (simp add: m_def r_def)
  have h: "100 * of_int a / of_int t + 1 / 2 = (of_int N / of_int D :: rat)"
    using t by (simp add: N_def D_def field_simps)
  have rd: "round (100 * of_int a / of_int t :: rat) = m"
    unfolding round_def h m_def by (simp only: floor_divide_of_int_eq)
  have hm: "(of_int N / of_int D :: rat) = of_int m + of_int r / of_int D"
    using DR by (simp add: N field_simps)
  define e where "e = z - 100 * of_int a / of_int t"
  have e: "\<bar>e\<bar> < 1 / of_int D" using close by (simp add: e_def D_def)
  have zz: "z + 1 / 2 = of_int m + (of_int r / of_int D + e)"
    using h hm by (simp add: e_def algebra_simps)
  have rD: "(of_int r / of_int D :: rat) \<le> 1 - 1 / of_int D"
  proof -
    have "r \<le> D - 1" using r by simp
    then have "(of_int r :: rat) \<le> of_int D - 1" by (metis of_int_le_iff of_int_diff of_int_1)
    then show ?thesis using DR by (simp add: field_simps)
  qed
  have r0: "(0::rat) \<le> of_int r / of_int D" using r DR by simp
  have part2: "\<lfloor>z + 1 / 2\<rfloor> = m \<or> \<lfloor>z + 1 / 2\<rfloor> = m - 1"
  proof (cases "0 \<le> of_int r / of_int D + e")
    case True
    have "of_int r / of_int D + e < 1" using rD e by (simp add: abs_less_iff)
    then have "\<lfloor>z + 1 / 2\<rfloor> = m" unfolding zz using True by (intro floor_unique) simp_all
    then show ?thesis by simp
  next
    case False
    have "1 / of_int D \<le> (1::rat)" using D by (simp add: field_simps) 
    then have "- 1 \<le> of_int r / of_int D + e" using r0 e by (simp add: abs_less_iff)
    then have "\<lfloor>z + 1 / 2\<rfloor> = m - 1" unfolding zz using False by (intro floor_unique) simp_all
    then show ?thesis by simp
  qed
  have part1: "\<lfloor>z + 1 / 2\<rfloor> = m" if nh: "\<not> halfway a t"
  proof -
    from nh have "r \<noteq> 0" by (simp add: halfway_def r_def N_def D_def dvd_eq_mod_eq_0)
    with r have "1 \<le> r" by simp
    then have "(1::rat) \<le> of_int r" by (metis of_int_le_iff of_int_1)
    then have "(1 / of_int D :: rat) \<le> of_int r / of_int D" using DR by (simp add: divide_right_mono)
    then have lo: "0 \<le> of_int r / of_int D + e" using e by (simp add: abs_less_iff)
    have "of_int r / of_int D + e < 1" using rD e by (simp add: abs_less_iff)
    then show ?thesis unfolding zz using lo by (intro floor_unique) simp_all
  qed
  show ?thesis using part1 part2 by (simp add: rd)
qed

lemma floor_draw_bounds:
  fixes r :: rat
  assumes "0 \<le> r" "r \<le> 1 - 1 / 2 ^ 53" "0 < (k::int)"
  shows "0 \<le> \<lfloor>js_mul r (of_int k)\<rfloor> \<and> \<lfloor>js_mul r (of_int k)\<rfloor> \<le> k - 1"
proof -
  define x where "x = r * of_int k"
  define eps :: rat where "eps = 1 / 2 ^ 53"
  have K: "(0::rat) < of_int k" using assms(3) by simp
  have x0: "0 \<le> x" using assms(1) K by (simp add: x_def)
  have e: "\<bar>fl x - x\<bar> \<le> x * eps" using fl_err [of x] x0 by (simp add: eps_def)
  have eps: "0 < eps" "eps < 1" by (simp_all add: eps_def)
  have "x * eps \<le> x * 1" using x0 eps by (intro mult_left_mono) simp_all
  then have lo: "0 \<le> fl x" using e by (simp add: abs_le_iff)
  have "x \<le> (1 - eps) * of_int k"
    unfolding x_def using assms(2) K by (intro mult_right_mono) (simp_all add: eps_def)
  then have "x * (1 + eps) \<le> ((1 - eps) * of_int k) * (1 + eps)"
    using eps by (intro mult_right_mono) simp_all
  also have "\<dots> = of_int k * (1 - eps * eps)" by (simp add: algebra_simps)
  also have "\<dots> < of_int k * 1" using K eps by (intro mult_strict_left_mono) simp_all
  finally have "x * (1 + eps) < of_int k" by simp
  moreover have "fl x \<le> x * (1 + eps)" using e by (simp add: abs_le_iff algebra_simps)
  ultimately have hi: "fl x < of_int k" by linarith
  from lo have "0 \<le> \<lfloor>fl x\<rfloor>" by simp
  moreover from hi have "\<lfloor>fl x\<rfloor> < k" by (simp add: floor_less_iff)
  ultimately show ?thesis by (simp add: js_mul_def x_def)
qed


section \<open>The simulation tick: auxiliary facts\<close>

lemma newStatus_closed:
  "st \<in> status_values \<Longrightarrow> newStatus rand st \<in> status_values"
  by (auto simp: newStatus_def status_values_def)

lemma random_int_eq: "random_int ev n k = (\<lfloor>js_mul (draws ev n) k\<rfloor>, Suc n)"
  by (simp add: random_int_def Math_random_def)

lemma simulate_district_eq:
  "simulate_district ev d (n, dbs) =
     (if db_fails ev (db_calls dbs)
      then (Inl SqliteError, n + 3, dbs\<lparr>db_calls := Suc (db_calls dbs)\<rparr>)
      else (Inr (step_district ev n d), n + 3,
            dbs\<lparr>db_calls := Suc (db_calls dbs),
                districts_tbl := map (\<lambda>r. if district_id r = district_id d
                   then r\<lparr>active_hotspots := active_hotspots (step_district ev n d),
                          utilization := utilization (step_district ev n d),
                          status := status (step_district ev n d), last_ping := now ev\<rparr>
                   else r) (districts_tbl dbs)\<rparr>))"
  by (simp add: simulate_district_def random_int_eq Math_random_def updateDistrict_def
      step_district_def Let_def)

lemma foldl_add_sum: "foldl (\<lambda>s d. s + f d) a xs = (a::int) + sum_list (map f xs)"
  by (induction xs arbitrary: a) auto

lemma step_district_perturbed:
  assumes "unit_draws ev"
  shows "perturbed d (step_district ev n d)"
proof -
  have a: "0 \<le> draws ev n" "draws ev n \<le> 1 - 1 / 2 ^ 53"
    "0 \<le> draws ev (Suc n)" "draws ev (Suc n) \<le> 1 - 1 / 2 ^ 53"
    using assms by (simp_all add: unit_draws_def)
  have b1: "0 \<le> \<lfloor>js_mul (draws ev n) 20\<rfloor> \<and> \<lfloor>js_mul (draws ev n) 20\<rfloor> \<le> 19"
    using floor_draw_bounds [OF a(1) a(2), of 20] by simp
  have b2: "0 \<le> \<lfloor>js_mul (draws ev (Suc n)) 8\<rfloor> \<and> \<lfloor>js_mul (draws ev (Suc n)) 8\<rfloor> \<le> 7"
    using floor_draw_bounds [OF a(3) a(4), of 8] by simp
  have c1: "\<lfloor>js_mul (draws ev n) 20\<rfloor> - 10 \<in> {-10..9}" using b1 by simp
  have c2: "\<lfloor>js_mul (draws ev (Suc n)) 8\<rfloor> - 4 \<in> {-4..3}" using b2 by simp
  have e1: "\<exists>i\<in>{-10..9}. active_hotspots (step_district ev n d)
              = max 0 (min (total_hotspots d) (active_hotspots d + i))"
    using c1 by (intro bexI [of _ "\<lfloor>js_mul (draws ev n) 20\<rfloor> - 10"])
      (simp_all add: step_district_def)
  have e2: "\<exists>i\<in>{-4..3}. utilization (step_district ev n d)
              = max 0 (min 100 (utilization d + i))"
    using c2 by (intro bexI [of _ "\<lfloor>js_mul (draws ev (Suc n)) 8\<rfloor> - 4"])
      (simp_all add: step_district_def)
  show ?thesis
    unfolding perturbed_def using e1 e2 by (simp add: step_district_def)
qed

lemma db_ok_Suc: "db_ok ev c (Suc m) \<Longrightarrow> \<not> db_fails ev c \<and> db_ok ev (Suc c) m"
  unfolding db_ok_def
proof (intro conjI allI impI)
  assume h: "\<forall>k<Suc m. \<not> db_fails ev (c + k)"
  from h have "\<not> db_fails ev (c + 0)" by blast
  then show "\<not> db_fails ev c" by simp
next
  fix k assume h: "\<forall>k<Suc m. \<not> db_fails ev (c + k)" and k: "k < m"
  from h k have "\<not> db_fails ev (c + Suc k)" by (meson Suc_mono)
  then show "\<not> db_fails ev (Suc c + k)" by simp
qed

lemma simulate_districts_ok:
  "db_ok ev (db_calls dbs) (length ds) \<Longrightarrow>
   \<exists>dbs'. simulate_districts ev ds (n, dbs) = (None, step_districts ev n ds, n + 3 * length ds, dbs')
         \<and> db_calls dbs' = db_calls dbs + length ds"
proof (induction ds arbitrary: n dbs)
  case Nil
  then show ?case by simp
next
  case (Cons d ds)
  from Cons.prems have ok: "\<not> db_fails ev (db_calls dbs)"
    and rest: "db_ok ev (Suc (db_calls dbs)) (length ds)"
    using db_ok_Suc [of ev "db_calls dbs" "length ds"] by simp_all
  obtain dbs1 where s1: "simulate_district ev d (n, dbs) = (Inr (step_district ev n d), n + 3, dbs1)"
    and c1: "db_calls dbs1 = Suc (db_calls dbs)"
    using ok by (simp add: simulate_district_eq)
  from rest c1 have "db_ok ev (db_calls dbs1) (length ds)" by simp
  from Cons.IH [OF this, of "n + 3"] obtain dbs2 where
    s2: "simulate_districts ev ds (n + 3, dbs1)
           = (None, step_districts ev (n + 3) ds, n + 3 + 3 * length ds, dbs2)"
    and c2: "db_calls dbs2 = db_calls dbs1 + length ds" by blast
  show ?case using s1 s2 c1 c2 by simp
qed

lemma step_districts_perturbed:
  "unit_draws ev \<Longrightarrow> list_all2 perturbed ds (step_districts ev n ds)"
  by (induction ds arbitrary: n) (simp_all add: step_district_perturbed)

lemma simulate_districts_status:
  "statuses_valid ds \<Longrightarrow> statuses_valid (fst (snd (simulate_districts ev ds st)))"
proof (induction ds arbitrary: st)
  case Nil
  then show ?case by simp
next
  case (Cons d ds)
  obtain n dbs where st: "st = (n, dbs)" by (cases st)
  show ?case
  proof (cases "db_fails ev (db_calls dbs)")
    case True
    then show ?thesis using Cons.prems by (simp add: st simulate_district_eq)
  next
    case False
    then obtain dbs1 where s1:
      "simulate_district ev d (n, dbs) = (Inr (step_district ev n d), n + 3, dbs1)"
      by (simp add: simulate_district_eq)
    obtain r ds' st' where s2: "simulate_districts ev ds (n + 3, dbs1) = (r, ds', st')"
      by (metis prod_cases3)
    have "status (step_district ev n d) \<in> status_values"
      using Cons.prems by (simp add: step_district_def newStatus_closed statuses_valid_def)
    moreover have "statuses_valid ds'"
      using Cons.IH [of "(n + 3, dbs1)"] Cons.prems s2 by (simp add: statuses_valid_def)
    ultimately show ?thesis by (simp add: st s1 s2 statuses_valid_def)
  qed
qed

lemma update_main_metrics_snd: "snd (update_main_metrics ev w n) = n + 3"
  by (simp add: update_main_metrics_def random_int_eq Let_def)

lemma update_main_metrics_districts: "districts (fst (update_main_metrics ev w n)) = districts w"
  by (simp add: update_main_metrics_def random_int_eq Let_def)

lemma saveMetrics_eq:
  "saveMetrics ev dbs m =
     (if db_fails ev (db_calls dbs) then (Inl SqliteError, dbs\<lparr>db_calls := Suc (db_calls dbs)\<rparr>)
      else (Inr (), dbs\<lparr>db_calls := Suc (db_calls dbs), wifi_metrics := wifi_metrics dbs @ [m]\<rparr>))"
  by (simp add: saveMetrics_def Let_def)

lemma broadcastUpdate_eq:
  "broadcastUpdate s = s\<lparr>outbox := outbox s @ broadcast_messages s (wifi s)\<rparr>"
  by (simp add: broadcastUpdate_def broadcast_messages_def open_clients_def comp_def)

lemma tick_cases:
  assumes sd: "simulate_districts ev (districts (wifi s)) (rng_calls s + 3, wifiDb s)
                 = (r, ds, n4, dbs)"
  shows "\<exists>w' dbs'. simulateRealTimeData ev s =
           s\<lparr>wifi := w', wifiDb := dbs', rng_calls := n4,
             outbox := outbox s @
               (if r = None \<and> \<not> db_fails ev (db_calls dbs) then broadcast_messages s w' else [])\<rparr>
         \<and> districts w' = ds"
proof -
  obtain w3 n3 where u: "update_main_metrics ev (wifi s) (rng_calls s) = (w3, n3)"
    by (cases "update_main_metrics ev (wifi s) (rng_calls s)")
  have n3: "n3 = rng_calls s + 3"
    using update_main_metrics_snd [of ev "wifi s" "rng_calls s"] u by simp
  have d3: "districts w3 = districts (wifi s)"
    using update_main_metrics_districts [of ev "wifi s" "rng_calls s"] u by simp
  have sd': "simulate_districts ev (districts w3) (n3, wifiDb s) = (r, ds, n4, dbs)"
    using sd n3 d3 by simp
  define w4 where "w4 = updateMetricsFromDistricts ev (w3\<lparr>districts := ds\<rparr>)"
  have dw4: "districts w4 = ds" by (simp add: w4_def updateMetricsFromDistricts_def Let_def)
  have bm: "\<And>x y z w. broadcast_messages (s\<lparr>wifi := x, wifiDb := y, rng_calls := z\<rparr>) w
              = broadcast_messages s w"
    by (simp add: broadcast_messages_def open_clients_def)
  show ?thesis
  proof (cases r)
    case (Some e)
    have "simulateRealTimeData ev s = s\<lparr>wifi := w3\<lparr>districts := ds\<rparr>, wifiDb := dbs, rng_calls := n4\<rparr>"
      by (simp add: simulateRealTimeData_def u sd' Some)
    then have "simulateRealTimeData ev s =
           s\<lparr>wifi := w3\<lparr>districts := ds\<rparr>, wifiDb := dbs, rng_calls := n4,
             outbox := outbox s @ []\<rparr>" by simp
    then show ?thesis using Some by (intro exI [of _ "w3\<lparr>districts := ds\<rparr>"] exI [of _ dbs]) simp
  next
    case None
    show ?thesis
    proof (cases "db_fails ev (db_calls dbs)")
      case True
      have "simulateRealTimeData ev s =
          s\<lparr>wifi := w4, wifiDb := dbs\<lparr>db_calls := Suc (db_calls dbs)\<rparr>, rng_calls := n4\<rparr>"
        by (simp add: simulateRealTimeData_def u sd' None saveMetrics_eq True w4_def)
      then have "simulateRealTimeData ev s =
          s\<lparr>wifi := w4, wifiDb := dbs\<lparr>db_calls := Suc (db_calls dbs)\<rparr>, rng_calls := n4,
            outbox := outbox s @ []\<rparr>" by simp
      then show ?thesis using True dw4
        by (intro exI [of _ w4] exI [of _ "dbs\<lparr>db_calls := Suc (db_calls dbs)\<rparr>"]) simp
    next
      case False
      have "simulateRealTimeData ev s =
          s\<lparr>wifi := w4, wifiDb := dbs\<lparr>db_calls := Suc (db_calls dbs),
               wifi_metrics := wifi_metrics dbs @ [metrics_of w4]\<rparr>, rng_calls := n4,
            outbox := outbox s @ broadcast_messages s w4\<rparr>"
        by (simp add: simulateRealTimeData_def u sd' None saveMetrics_eq False w4_def
            broadcastUpdate_eq bm)
      then show ?thesis using False None dw4
        by (intro exI [of _ w4] exI [of _ "dbs\<lparr>db_calls := Suc (db_calls dbs),
               wifi_metrics := wifi_metrics dbs @ [metrics_of w4]\<rparr>"]) simp
    qed
  qed
qed

lemma db_ok_Suc_iff: "db_ok ev c (Suc m) = (\<not> db_fails ev c \<and> db_ok ev (Suc c) m)"
  by (simp add: db_ok_def All_less_Suc2)

lemma first_rejected_le: "first_rejected ev c m \<le> m"
  by (induction m arbitrary: c) simp_all

lemma first_rejected_db_ok: "(first_rejected ev c m = m) = db_ok ev c m"
proof (induction m arbitrary: c)
  case 0
  show ?case by (simp add: db_ok_def)
next
  case (Suc m)
  show ?case using Suc.IH [of "Suc c"] by (simp add: db_ok_Suc_iff)
qed

lemma first_rejected_spec:
  "db_ok ev c (first_rejected ev c m) \<and>
   (first_rejected ev c m < m \<longrightarrow> db_fails ev (c + first_rejected ev c m))"
proof (induction m arbitrary: c)
  case 0
  show ?case by (simp add: db_ok_def)
next
  case (Suc m)
  show ?case
  proof (cases "db_fails ev c")
    case True
    then show ?thesis by (simp add: db_ok_def)
  next
    case False
    then show ?thesis using Suc.IH [of "Suc c"] by (simp add: db_ok_Suc_iff)
  qed
qed

lemma first_rejected_last:
  "first_rejected ev c (Suc m) =
     (if first_rejected ev c m < m then first_rejected ev c m
      else if db_fails ev (c + m) then m else Suc m)"
proof (induction m arbitrary: c)
  case 0
  show ?case by simp
next
  case (Suc m)
  show ?case
  proof (cases "db_fails ev c")
    case True
    then show ?thesis by simp
  next
    case False
    have "first_rejected ev c (Suc (Suc m)) = Suc (first_rejected ev (Suc c) (Suc m))"
      using False by simp
    also have "\<dots> = Suc (if first_rejected ev (Suc c) m < m then first_rejected ev (Suc c) m
                          else if db_fails ev (Suc c + m) then m else Suc m)"
      by (simp only: Suc.IH [of "Suc c"])
    finally show ?thesis using False by simp
  qed
qed

lemma length_step_districts: "length (step_districts ev n ds) = length ds"
  by (induction ds arbitrary: n) simp_all

lemma take_drop_prefix:
  assumes "length xs = length (take k ds)"
  shows "take k (xs @ drop k ds) = xs" "drop k (xs @ drop k ds) = drop k ds"
  using assms by (cases "k \<le> length ds"; simp)+

lemma simulate_districts_general:
  "\<exists>dbs'. simulate_districts ev ds (n, dbs) =
      ((if first_rejected ev (db_calls dbs) (length ds) = length ds then None
        else Some SqliteError),
       step_districts ev n (take (first_rejected ev (db_calls dbs) (length ds)) ds)
         @ drop (first_rejected ev (db_calls dbs) (length ds)) ds,
       n + 3 * (if first_rejected ev (db_calls dbs) (length ds) = length ds then length ds
                else Suc (first_rejected ev (db_calls dbs) (length ds))),
       dbs') \<and>
     (first_rejected ev (db_calls dbs) (length ds) = length ds
        \<longrightarrow> db_calls dbs' = db_calls dbs + length ds)"
proof (induction ds arbitrary: n dbs)
  case Nil
  show ?case by simp
next
  case (Cons d ds)
  show ?case
  proof (cases "db_fails ev (db_calls dbs)")
    case True
    then show ?thesis by (simp add: simulate_district_eq)
  next
    case False
    then obtain dbs1 where s1:
      "simulate_district ev d (n, dbs) = (Inr (step_district ev n d), n + 3, dbs1)"
      and c1: "db_calls dbs1 = Suc (db_calls dbs)"
      by (simp add: simulate_district_eq)
    define k where "k = first_rejected ev (Suc (db_calls dbs)) (length ds)"
    from Cons.IH [of "n + 3" dbs1] obtain dbs2 where
      s2: "simulate_districts ev ds (n + 3, dbs1) =
        ((if k = length ds then None else Some SqliteError),
         step_districts ev (n + 3) (take k ds) @ drop k ds,
         n + 3 + 3 * (if k = length ds then length ds else Suc k), dbs2)"
      and c2: "k = length ds \<longrightarrow> db_calls dbs2 = db_calls dbs1 + length ds"
      unfolding c1 k_def by blast
    have fr: "first_rejected ev (db_calls dbs) (length (d # ds)) = Suc k"
      using False by (simp add: k_def)
    show ?thesis
      unfolding fr using s1 s2 c1 c2 by (intro exI [of _ dbs2]) simp
  qed
qed

lemma tick_general:
  "districts (wifi (simulateRealTimeData ev s))
     = step_districts ev (rng_calls s + 3) (take (accepted_writes ev s) (districts (wifi s)))
         @ drop (accepted_writes ev s) (districts (wifi s)) \<and>
   outbox (simulateRealTimeData ev s)
     = outbox s @ (if accepted_writes ev s = tick_writes s
                   then broadcast_messages s (wifi (simulateRealTimeData ev s)) else []) \<and>
   clients (simulateRealTimeData ev s) = clients s"
proof -
  let ?ds = "districts (wifi s)" and ?c = "db_calls (wifiDb s)"
  define k where "k = first_rejected ev ?c (length ?ds)"
  define K where "K = first_rejected ev ?c (Suc (length ?ds))"
  have K: "K = (if k < length ?ds then k else if db_fails ev (?c + length ?ds) then length ?ds
                else Suc (length ?ds))"
    unfolding K_def k_def by (rule first_rejected_last)
  have kle: "k \<le> length ?ds" unfolding k_def by (rule first_rejected_le)
  from simulate_districts_general [of ev ?ds "rng_calls s + 3" "wifiDb s"] obtain dbs where
    sd: "simulate_districts ev ?ds (rng_calls s + 3, wifiDb s) =
      ((if k = length ?ds then None else Some SqliteError),
       step_districts ev (rng_calls s + 3) (take k ?ds) @ drop k ?ds,
       rng_calls s + 3 + 3 * (if k = length ?ds then length ?ds else Suc k), dbs)"
    and c: "k = length ?ds \<longrightarrow> db_calls dbs = ?c + length ?ds"
    unfolding k_def by blast
  from tick_cases [OF sd] obtain w' dbs' where
    t: "simulateRealTimeData ev s =
           s\<lparr>wifi := w', wifiDb := dbs',
             rng_calls := rng_calls s + 3 + 3 * (if k = length ?ds then length ?ds else Suc k),
             outbox := outbox s @
               (if (if k = length ?ds then None else Some SqliteError) = None
                   \<and> \<not> db_fails ev (db_calls dbs) then broadcast_messages s w' else [])\<rparr>"
    and d: "districts w' = step_districts ev (rng_calls s + 3) (take k ?ds) @ drop k ?ds"
    by blast
  have tk: "take K ?ds = take k ?ds" "drop K ?ds = drop k ?ds"
    using kle by (auto simp: K)
  have bc: "((if k = length ?ds then None else Some SqliteError) = None
              \<and> \<not> db_fails ev (db_calls dbs)) = (K = Suc (length ?ds))"
    using kle c by (auto simp: K)
  show ?thesis
    unfolding accepted_writes_def tick_writes_def K_def [symmetric]
    by (simp add: t d tk bc)
qed

lemma updateMetrics_fields:
  "totalHotspots (updateMetricsFromDistricts ev w) = sum_total_hotspots (districts w)"
  "activeHotspots (updateMetricsFromDistricts ev w) = sum_active_hotspots (districts w)"
  "criticalDistricts (updateMetricsFromDistricts ev w) = length (filter is_critical (districts w))"
  "wifi_utilization (updateMetricsFromDistricts ev w) =
     (if 0 < sum_total_hotspots (districts w)
      then Math_round (js_mul (js_div (sum_active_hotspots (districts w))
                                      (sum_total_hotspots (districts w))) 100)
      else 0)"
  by (simp_all add: updateMetricsFromDistricts_def Let_def foldl_add_sum
      sum_total_hotspots_def sum_active_hotspots_def is_critical_def [abs_def])


section \<open>WebSocket messages: auxiliary facts\<close>

lemma envelope_data_update [simp]: "envelope_type (data_update_message w) = Some ''data_update''"
  by (simp add: data_update_message_def)

lemma envelope_update_reply [simp]: "envelope_type (update_reply_message w) = Some ''data_update''"
  by (simp add: update_reply_message_def)

lemma envelope_initial_data [simp]: "envelope_type (initial_data_message h w) = Some ''initial_data''"
  by (simp add: initial_data_message_def)

lemma tick_outbox:
  "\<exists>w'. outbox (simulateRealTimeData ev s) = outbox s \<or>
        outbox (simulateRealTimeData ev s) = outbox s @ broadcast_messages s w'"
proof -
  obtain r ds n4 dbs where sd:
    "simulate_districts ev (districts (wifi s)) (rng_calls s + 3, wifiDb s) = (r, ds, n4, dbs)"
    by (metis prod_cases4)
  from tick_cases [OF sd] obtain w' dbs' where
    t: "simulateRealTimeData ev s =
           s\<lparr>wifi := w', wifiDb := dbs', rng_calls := n4,
             outbox := outbox s @
               (if r = None \<and> \<not> db_fails ev (db_calls dbs) then broadcast_messages s w' else [])\<rparr>"
    by blast
  show ?thesis
    by (rule exI [of _ w']) (simp add: t)
qed

lemma envelopes_only_append:
  "envelopes_only (xs @ ys) = (envelopes_only xs \<and> envelopes_only ys)"
  by (simp add: envelopes_only_def)

lemma broadcast_envelopes: "envelopes_only (broadcast_messages s w)"
  by (simp add: envelopes_only_def broadcast_messages_def list_all_iff)

lemma handle_envelopes:
  "envelopes_only (outbox s) \<Longrightarrow> envelopes_only (outbox (handle ev e s))"
proof (cases e)
  case (Connection ws)
  assume "envelopes_only (outbox s)"
  then show ?thesis
    by (simp add: Connection on_connection_def envelopes_only_def split: prod.splits)
next
  case (Message ws parsed)
  assume "envelopes_only (outbox s)"
  then show ?thesis by (simp add: Message on_message_def envelopes_only_def)
next
  case (Close ws)
  assume "envelopes_only (outbox s)"
  then show ?thesis by (simp add: Close on_close_def)
next
  case Tick
  assume a: "envelopes_only (outbox s)"
  from tick_outbox [of ev s] obtain w' where
    "outbox (simulateRealTimeData ev s) = outbox s \<or>
     outbox (simulateRealTimeData ev s) = outbox s @ broadcast_messages s w'" by blast
  then show ?thesis using a
    by (auto simp: Tick envelopes_only_append broadcast_envelopes)
qed

lemma run_envelopes:
  "envelopes_only (outbox s) \<Longrightarrow> envelopes_only (outbox (run ev es s))"
  by (induction es arbitrary: s) (simp_all add: handle_envelopes)


section \<open>Accounts, login and registration: auxiliary facts\<close>

lemma col_new_row:
  "col ((''id'', v) # map (\<lambda>c. (c, f c)) cs) c
     = (if c = ''id'' then v else if c \<in> set cs then f c else SNull)"
proof -
  have "map_of (map (\<lambda>c. (c, f c)) cs) c = (if c \<in> set cs then Some (f c) else None)"
    by (induction cs) auto
  then show ?thesis by (simp add: col_def)
qed









lemma account_table_calls [simp]: "account_table t (db\<lparr>calls := n\<rparr>) = account_table t db"
  by (simp add: account_table_def)










lemma sql_insert_rows:
  "sql_insert ev sch t vals = Inr (i, t') \<Longrightarrow> \<exists>r. rows t' = rows t @ [r]"
  by (auto simp: sql_insert_def Let_def split: option.splits)

lemma update_rows_map:
  "update_rows sch sets i done rs = Inr (n, rs') \<Longrightarrow>
   rs' = done @ map (\<lambda>r. if row_id r = SInt (int i)
                          then (case apply_sets sch sets r of Inr r' \<Rightarrow> r' | Inl e \<Rightarrow> r)
                          else r) rs"
proof (induction rs arbitrary: "done" n rs')
  case Nil
  then show ?case by simp
next
  case (Cons r rs)
  show ?case
  proof (cases "row_id r = SInt (int i)")
    case True
    with Cons.prems obtain r' m where
      a: "apply_sets sch sets r = Inr r'" and
      u: "update_rows sch sets i (done @ [r']) rs = Inr (m, rs')"
      by (auto split: sum.splits option.splits)
    from Cons.IH [OF u] show ?thesis using True a by simp
  next
    case False
    with Cons.prems have u: "update_rows sch sets i (done @ [r]) rs = Inr (n, rs')" by simp
    from Cons.IH [OF u] show ?thesis using False by simp
  qed
qed

lemma sql_update_rows:
  "sql_update sch t sets i = Inr (n, t') \<Longrightarrow>
   rows t' = map (\<lambda>r. if row_id r = SInt (int i)
                       then (case apply_sets sch sets r of Inr r' \<Rightarrow> r' | Inl e \<Rightarrow> r)
                       else r) (rows t)"
  using update_rows_map [of sch sets i "[]" "rows t"]
  by (auto simp: sql_update_def split: if_splits sum.splits)

lemma sql_update_length:
  "sql_update sch t sets i = Inr (n, t') \<Longrightarrow> length (rows t') = length (rows t)"
  by (drule sql_update_rows) simp

lemma users_set_account_table:
  "rows (users (set_account_table t tb db)) = (if t = ''admin'' then rows (users db) else rows tb)"
  "rows (admins (set_account_table t tb db)) = (if t = ''admin'' then rows tb else rows (admins db))"
  by (simp_all add: set_account_table_def)

lemma account_table_rows:
  "rows (account_table t db) = (if t = ''admin'' then rows (admins db) else rows (users db))"
  by (simp add: account_table_def)

lemma createUser_rows:
  "\<exists>new. rows (users (snd (createUser ev db ud t))) = rows (users db) @ new \<and>
         (\<exists>new'. rows (admins (snd (createUser ev db ud t))) = rows (admins db) @ new')"
proof (cases "db_fails ev (calls db)")
  case True
  then show ?thesis by (simp add: createUser_def db_call_def)
next
  case False
  show ?thesis
  proof (cases "sql_insert ev (account_schema t) (account_table t (db\<lparr>calls := Suc (calls db)\<rparr>))
                     [(''fullname'', SText (ud_fullname ud)), (''email'', SText (ud_email ud)),
                      (''username'', SText (ud_username ud)),
                      (''role'', SText (if ud_role ud \<noteq> [] then ud_role ud else t)),
                      (''password'', SText (hashSync ev (ud_password ud)))]")
    case (Inl e)
    then show ?thesis using False by (simp add: createUser_def db_call_def)
  next
    case (Inr p)
    obtain i tb where p: "p = (i, tb)" by (cases p)
    from sql_insert_rows [OF Inr [unfolded p]] obtain r where
      r: "rows tb = rows (account_table t (db\<lparr>calls := Suc (calls db)\<rparr>)) @ [r]" by blast
    show ?thesis using False Inr p r
      by (simp add: createUser_def db_call_def users_set_account_table account_table_rows)
  qed
qed

lemma createAdmin_rows:
  "rows (users (snd (createAdmin ev db ad))) = rows (users db) \<and>
   (\<exists>new. rows (admins (snd (createAdmin ev db ad))) = rows (admins db) @ new)"
proof (cases "db_fails ev (calls db)")
  case True
  then show ?thesis by (simp add: createAdmin_def db_call_def)
next
  case False
  then show ?thesis
    by (auto simp: createAdmin_def db_call_def split: sum.splits dest!: sql_insert_rows)
qed

lemma seedInitialData_rows:
  "rows (users (snd (seedInitialData ev db))) = rows (users db) \<and>
   (\<exists>new. rows (admins (snd (seedInitialData ev db))) = rows (admins db) @ new)"
proof (cases "db_fails ev (calls db)")
  case True
  then show ?thesis by (simp add: seedInitialData_def db_call_def)
next
  case False
  then show ?thesis
    by (auto simp: seedInitialData_def db_call_def split: sum.splits dest!: sql_insert_rows)
qed

lemma authenticateUser_count:
  "account_count (snd (authenticateUser ev db u pw t)) = account_count db"
  by (simp add: authenticateUser_def db_call_def account_count_def set_account_table_def
      account_table_def split: option.splits)

lemma updateUser_count:
  "account_count (snd (updateUser ev db i ups t)) = account_count db"
proof (cases "db_fails ev (calls db)")
  case True
  then show ?thesis by (simp add: updateUser_def db_call_def account_count_def)
next
  case False
  then show ?thesis
    by (auto simp: updateUser_def db_call_def account_count_def set_account_table_def
        account_table_def split: sum.splits dest!: sql_update_length)
qed

lemma resolve_is_active:
  "resolve_column users_schema ''is_active'' = Some ''is_active''"
  "resolve_column admins_schema ''is_active'' = Some ''is_active''"
  by code_simp+

lemma apply_sets_deactivate:
  "apply_sets (account_schema t) [(''is_active'', SInt 0)] r
     = Inr (AList.update ''is_active'' (SInt 0) r)"
  by (simp add: account_schema_def resolve_is_active)

lemma updateUser_deactivate:
  assumes "fst (updateUser ev db i [(''is_active'', SInt 0)] t) = Inr n"
  shows "rows (account_table t (snd (updateUser ev db i [(''is_active'', SInt 0)] t)))
           = map (deactivate i) (rows (account_table t db))"
proof -
  from assms have nf: "\<not> db_fails ev (calls db)"
    by (auto simp: updateUser_def db_call_def)
  from assms nf obtain tb where
    u: "sql_update (account_schema t) (account_table t db) [(''is_active'', SInt 0)] i = Inr (n, tb)"
    and d: "snd (updateUser ev db i [(''is_active'', SInt 0)] t)
              = set_account_table t tb (db\<lparr>calls := Suc (calls db)\<rparr>)"
    by (auto simp: updateUser_def db_call_def account_table_def split: sum.splits if_splits)
  have "rows tb = map (deactivate i) (rows (account_table t db))"
    using sql_update_rows [OF u]
    by (simp add: apply_sets_deactivate deactivate_def [abs_def] del: apply_sets.simps)
  then show ?thesis by (simp add: d account_table_def set_account_table_def)
qed

lemma deleteUser_rows:
  "rows (account_table t (snd (deleteUser ev db i t)))
     = (if db_fails ev (calls db) then rows (account_table t db)
        else without_id i (rows (account_table t db)))"
  by (simp add: deleteUser_def db_call_def sql_delete_def account_table_def
      set_account_table_def without_id_def)





lemma sent_simps [simp]:
  "fst (sent x) = Inr (fst x)" "snd (sent x) = snd x"
  by (simp_all add: sent_def)

lemma answered_simps [simp]:
  "answered (Inr r) = Some (status_code r)" "answered (Inl e) = None"
  by (simp_all add: answered_def)





lemma sql_insert_col:
  assumes "sql_insert ev sch t vals = Inr (i, t')"
  shows "\<exists>r. rows t' = rows t @ [r] \<and>
           (\<forall>c v. c \<in> set (tl (columns sch)) \<and> c \<noteq> ''id'' \<and> map_of vals c = Some v
                   \<longrightarrow> col r c = v)"
proof -
  define r where "r = (''id'', SInt (int (Suc (max (seq t) (max_id (rows t)))))) #
      map (\<lambda>c. (c, case map_of vals c of Some v \<Rightarrow> v | None \<Rightarrow> col (defaults sch ev) c))
          (tl (columns sch))"
  from assms have "rows t' = rows t @ [r]"
    unfolding sql_insert_def Let_def r_def [symmetric]
    by (auto split: option.splits)
  moreover have "\<forall>c v. c \<in> set (tl (columns sch)) \<and> c \<noteq> ''id'' \<and> map_of vals c = Some v
                   \<longrightarrow> col r c = v"
    unfolding r_def col_new_row by simp
  ultimately show ?thesis by blast
qed

lemma account_columns:
  "''password'' \<in> set (tl (columns (account_schema t)))"
  by (simp add: account_schema_def users_schema_def admins_schema_def)

lemma createUser_password:
  assumes "createUser ev db ud t = (Inr i, db')"
  shows "\<exists>r. rows (account_table t db') = rows (account_table t db) @ [r] \<and>
              col r ''password'' = SText (hashSync ev (ud_password ud))"
proof -
  define vals where "vals = [(''fullname'', SText (ud_fullname ud)), (''email'', SText (ud_email ud)),
                (''username'', SText (ud_username ud)),
                (''role'', SText (if ud_role ud \<noteq> [] then ud_role ud else t)),
                (''password'', SText (hashSync ev (ud_password ud)))]"
  have m: "map_of vals ''password'' = Some (SText (hashSync ev (ud_password ud)))"
    by (simp add: vals_def)
  from assms have nf: "\<not> db_fails ev (calls db)"
    by (auto simp: createUser_def db_call_def)
  have cu: "createUser ev db ud t =
      (case sql_insert ev (account_schema t) (account_table t db) vals of
         Inl e \<Rightarrow> (Inl e, db\<lparr>calls := Suc (calls db)\<rparr>)
       | Inr (i, tb) \<Rightarrow> (Inr i, set_account_table t tb (db\<lparr>calls := Suc (calls db)\<rparr>)))"
    using nf by (simp add: createUser_def db_call_def vals_def)
  from assms [unfolded cu] obtain tb where
    ins: "sql_insert ev (account_schema t) (account_table t db) vals = Inr (i, tb)"
    and d: "db' = set_account_table t tb (db\<lparr>calls := Suc (calls db)\<rparr>)"
    by (auto split: sum.splits)
  from sql_insert_col [OF ins] obtain r where
    r1: "rows tb = rows (account_table t db) @ [r]" and
    r2: "\<forall>c v. c \<in> set (tl (columns (account_schema t))) \<and> c \<noteq> ''id'' \<and>
               map_of vals c = Some v \<longrightarrow> col r c = v"
    by blast
  from r2 account_columns [of t] m
  have "col r ''password'' = SText (hashSync ev (ud_password ud))" by simp
  moreover have "rows (account_table t db') = rows (account_table t db) @ [r]"
    using r1 by (simp add: d account_table_def set_account_table_def)
  ultimately show ?thesis by blast
qed

lemma createAdmin_password:
  assumes "createAdmin ev db ad = (Inr i, db')"
  shows "\<exists>r. rows (admins db') = rows (admins db) @ [r] \<and>
              col r ''password'' = SText (hashSync ev (ad_password ad))"
proof -
  define vals where "vals = [(''fullname'', SText (ad_fullname ad)), (''email'', SText (ad_email ad)),
                (''username'', SText (ad_username ad)), (''role'', SText (ad_role ad)),
                (''password'', SText (hashSync ev (ad_password ad))),
                (''department'', SText (ad_department ad)),
                (''gov_id'', SText (ad_govId ad)),
                (''registration_id'', SText (ad_registrationId ad)),
                (''status'', SText (if ad_status ad \<noteq> [] then ad_status ad
                                    else ''pending_verification'')),
                (''is_active'', SInt (if ad_isActive ad then 1 else 0)),
                (''created_at'', SText (now ev))]"
  have m: "map_of vals ''password'' = Some (SText (hashSync ev (ad_password ad)))"
    by (simp add: vals_def)
  from assms have nf: "\<not> db_fails ev (calls db)"
    by (auto simp: createAdmin_def db_call_def)
  have cu: "createAdmin ev db ad =
      (case sql_insert ev admins_schema (admins db) vals of
         Inl e \<Rightarrow> (Inl e, db\<lparr>calls := Suc (calls db)\<rparr>)
       | Inr (i, tb) \<Rightarrow> (Inr i, db\<lparr>calls := Suc (calls db), admins := tb\<rparr>))"
    using nf by (simp add: createAdmin_def db_call_def vals_def)
  from assms [unfolded cu] obtain tb where
    ins: "sql_insert ev admins_schema (admins db) vals = Inr (i, tb)"
    and d: "db' = db\<lparr>calls := Suc (calls db), admins := tb\<rparr>"
    by (auto split: sum.splits)
  have pc: "''password'' \<in> set (tl (columns admins_schema))"
    using account_columns [of "''admin''"] by (simp add: account_schema_def)
  from sql_insert_col [OF ins] obtain r where
    r1: "rows tb = rows (admins db) @ [r]" and
    r2: "\<forall>c v. c \<in> set (tl (columns admins_schema)) \<and> c \<noteq> ''id'' \<and>
               map_of vals c = Some v \<longrightarrow> col r c = v"
    by blast
  from r2 pc m
  have "col r ''password'' = SText (hashSync ev (ad_password ad))" by simp
  moreover have "rows (admins db') = rows (admins db) @ [r]"
    using r1 by (simp add: d)
  ultimately show ?thesis by blast
qed

lemma api_auth_register_duplicate:
  \<comment> \<open>the REST server answers the same duplicate with 400 and creates no account either\<close>
  "status_code (fst (api_auth_register example_env alice_again alice_database)) = 400 \<and>
   rows (users (snd (api_auth_register example_env alice_again alice_database)))
     = rows (users alice_database)"
  by code_simp


section \<open>The simulation tick: the properties\<close>

text \<open>
  C10. The per-tick status transition maps the set of the three status values into itself:
  whatever the random draw, a status in \<open>{normal, warning, critical}\<close> is followed by a
  status in that set, for the transition itself and for every district after a whole tick
  (also a tick that a rejected database call cuts short).
\<close>

theorem status_transition_closed:
  "(st \<in> status_values \<longrightarrow> newStatus rand st \<in> status_values) \<and>
   (statuses_valid (districts (wifi s)) \<longrightarrow>
    statuses_valid (districts (wifi (simulateRealTimeData ev s))))"
proof (intro conjI impI)
  assume "st \<in> status_values"
  then show "newStatus rand st \<in> status_values" by (rule newStatus_closed)
next
  assume a: "statuses_valid (districts (wifi s))"
  obtain r ds n4 dbs where sd:
    "simulate_districts ev (districts (wifi s)) (rng_calls s + 3, wifiDb s) = (r, ds, n4, dbs)"
    by (metis prod_cases4)
  from tick_cases [OF sd] have "districts (wifi (simulateRealTimeData ev s)) = ds" by auto
  moreover have "statuses_valid ds"
    using simulate_districts_status [OF a, of ev "(rng_calls s + 3, wifiDb s)"] sd by simp
  ultimately show "statuses_valid (districts (wifi (simulateRealTimeData ev s)))" by simp
qed

theorem status_transition_closed_witness:
  "''warning'' \<in> status_values \<and> newStatus (1 / 50) ''warning'' \<in> status_values \<and>
   statuses_valid (districts (wifi example_server)) \<and>
   statuses_valid (districts (wifi (simulateRealTimeData example_env example_server)))"
proof -
  have a: "''warning'' \<in> status_values" by (simp add: status_values_def)
  have b: "statuses_valid (districts (wifi example_server))"
    by (simp add: statuses_valid_def status_values_def example_server_def example_wifi_def
        example_district_def)
  show ?thesis
    using a b status_transition_closed [of "''warning''" "1 / 50" example_server example_env]
    by blast
qed

text \<open>
  C7, as amended. The body of the per-district loop calls the random source exactly three
  times (active hotspots, utilization, status), not four; three further calls are made once
  per tick, before the loop, for the aggregate figures. A tick whose district updates are all
  accepted by the database therefore makes \<open>3 + 3 * n\<close> calls for \<open>n\<close> districts.
\<close>

theorem three_draws_per_district:
  "fst (snd (simulate_district ev d (n, dbs))) = n + 3 \<and>
   (db_ok ev (db_calls (wifiDb s)) (length (districts (wifi s))) \<longrightarrow>
    rng_calls (simulateRealTimeData ev s) = rng_calls s + 3 + 3 * length (districts (wifi s)))"
proof (intro conjI impI)
  show "fst (snd (simulate_district ev d (n, dbs))) = n + 3"
    by (simp add: simulate_district_eq)
next
  assume ok: "db_ok ev (db_calls (wifiDb s)) (length (districts (wifi s)))"
  from simulate_districts_ok [OF ok, of "rng_calls s + 3"] obtain dbs' where sd:
    "simulate_districts ev (districts (wifi s)) (rng_calls s + 3, wifiDb s)
       = (None, step_districts ev (rng_calls s + 3) (districts (wifi s)),
          rng_calls s + 3 + 3 * length (districts (wifi s)), dbs')" by blast
  from tick_cases [OF sd] obtain w' dbs'' new where
    "simulateRealTimeData ev s = s\<lparr>wifi := w', wifiDb := dbs'',
        rng_calls := rng_calls s + 3 + 3 * length (districts (wifi s)),
        outbox := outbox s @ new\<rparr>" by blast
  then show "rng_calls (simulateRealTimeData ev s)
      = rng_calls s + 3 + 3 * length (districts (wifi s))" by simp
qed

theorem three_draws_per_district_witness:
  "fst (snd (simulate_district example_env example_district (0, example_wifi_db))) = 0 + 3 \<and>
   db_ok example_env (db_calls (wifiDb example_server)) (length (districts (wifi example_server))) \<and>
   rng_calls (simulateRealTimeData example_env example_server)
     = rng_calls example_server + 3 + 3 * length (districts (wifi example_server))"
proof -
  have ok: "db_ok example_env (db_calls (wifiDb example_server))
              (length (districts (wifi example_server)))"
    by (simp add: db_ok_def example_env_def)
  show ?thesis
    using ok three_draws_per_district [of example_env example_district 0 example_wifi_db example_server]
    by blast
qed

text \<open>
  C7 as stated fails: for the example district the call counter stands at three after the
  loop body, not at four.
\<close>

theorem four_draws_counterexample:
  "fst (snd (simulate_district example_env example_district (0, example_wifi_db))) \<noteq> 0 + 4"
  by (simp add: simulate_district_eq)

text \<open>
  C2, as amended. A tick makes one database write per district, in list order, and then
  one for the metrics row. With draws in \<open>[0, 1)\<close>: when the database accepts all of them,
  every district is replaced by a perturbed one (active hotspots moved by a step in
  \<open>[-10, 9]\<close> and clamped to \<open>[0, max 0 total_hotspots]\<close>, utilization moved by a step in
  \<open>[-4, 3]\<close> and clamped to \<open>[0, 100]\<close>) and the tick ends by sending the \<open>data_update\<close>
  message for the updated data to every open client. When the database rejects one, the
  tick ends at the first rejected write: the districts whose update was accepted before it
  are perturbed, the district whose update was rejected and all later ones stay as they
  were, and nothing is sent. The set of clients is the same after the tick in both cases.
  The step of a district is the one that its three draws give (\<open>step_district\<close>): the
  first draw moves the active hotspots, the second the utilization, the third decides the
  status; the three draws before the loop belong to the aggregate figures.
\<close>

theorem tick_perturbs_and_broadcasts:
  assumes "unit_draws ev"
  shows "(db_ok ev (db_calls (wifiDb s)) (tick_writes s) \<longrightarrow>
            accepted_writes ev s = tick_writes s \<and>
            list_all2 perturbed (districts (wifi s))
               (districts (wifi (simulateRealTimeData ev s))) \<and>
            outbox (simulateRealTimeData ev s)
               = outbox s @ broadcast_messages s (wifi (simulateRealTimeData ev s))) \<and>
         (\<not> db_ok ev (db_calls (wifiDb s)) (tick_writes s) \<longrightarrow>
            accepted_writes ev s < tick_writes s \<and>
            db_ok ev (db_calls (wifiDb s)) (accepted_writes ev s) \<and>
            db_fails ev (db_calls (wifiDb s) + accepted_writes ev s) \<and>
            list_all2 perturbed (take (accepted_writes ev s) (districts (wifi s)))
               (take (accepted_writes ev s) (districts (wifi (simulateRealTimeData ev s)))) \<and>
            drop (accepted_writes ev s) (districts (wifi (simulateRealTimeData ev s)))
               = drop (accepted_writes ev s) (districts (wifi s)) \<and>
            outbox (simulateRealTimeData ev s) = outbox s) \<and>
         clients (simulateRealTimeData ev s) = clients s \<and>
         districts (wifi (simulateRealTimeData ev s))
           = step_districts ev (rng_calls s + 3)
               (take (accepted_writes ev s) (districts (wifi s)))
             @ drop (accepted_writes ev s) (districts (wifi s))"
proof -
  let ?ds = "districts (wifi s)" and ?c = "db_calls (wifiDb s)" and ?k = "accepted_writes ev s"
  let ?s' = "simulateRealTimeData ev s"
  note g = tick_general [of ev s]
  have d: "districts (wifi ?s')
             = step_districts ev (rng_calls s + 3) (take ?k ?ds) @ drop ?k ?ds"
    using g by blast
  have ob: "outbox ?s' = outbox s @ (if ?k = tick_writes s
              then broadcast_messages s (wifi ?s') else [])"
    using g by blast
  have cl: "clients ?s' = clients s" using g by blast
  have len: "length (step_districts ev (rng_calls s + 3) (take ?k ?ds)) = length (take ?k ?ds)"
    by (rule length_step_districts)
  have tk: "take ?k (districts (wifi ?s')) = step_districts ev (rng_calls s + 3) (take ?k ?ds)"
    unfolding d using len by (rule take_drop_prefix)
  have dr: "drop ?k (districts (wifi ?s')) = drop ?k ?ds"
    unfolding d using len by (rule take_drop_prefix)
  have pt: "list_all2 perturbed (take ?k ?ds) (take ?k (districts (wifi ?s')))"
    unfolding tk using assms by (rule step_districts_perturbed)
  have iff: "(?k = tick_writes s) = db_ok ev ?c (tick_writes s)"
    unfolding accepted_writes_def by (rule first_rejected_db_ok)
  have le: "?k \<le> tick_writes s"
    unfolding accepted_writes_def by (rule first_rejected_le)
  note sp = first_rejected_spec [of ev ?c "tick_writes s", folded accepted_writes_def]
  show ?thesis
  proof (intro conjI impI)
    assume ok: "db_ok ev ?c (tick_writes s)"
    then show kt: "?k = tick_writes s" using iff by simp
    then have k: "?k = Suc (length ?ds)" by (simp add: tick_writes_def)
    have "districts (wifi ?s') = step_districts ev (rng_calls s + 3) ?ds"
      using d by (simp add: k)
    then show "list_all2 perturbed ?ds (districts (wifi ?s'))"
      using assms by (simp add: step_districts_perturbed)
    from ob ok iff show "outbox ?s' = outbox s @ broadcast_messages s (wifi ?s')" by simp
  next
    assume no: "\<not> db_ok ev ?c (tick_writes s)"
    with iff le show lt: "?k < tick_writes s" by simp
    from sp show "db_ok ev ?c ?k" by blast
    from sp lt show "db_fails ev (?c + ?k)" by blast
    from pt show "list_all2 perturbed (take ?k ?ds) (take ?k (districts (wifi ?s')))" .
    from dr show "drop ?k (districts (wifi ?s')) = drop ?k ?ds" .
    from ob no iff show "outbox ?s' = outbox s" by simp
  next
    from cl show "clients ?s' = clients s" .
  next
    from d show "districts (wifi ?s')
      = step_districts ev (rng_calls s + 3) (take ?k ?ds) @ drop ?k ?ds" .
  qed
qed

theorem tick_perturbs_and_broadcasts_witness:
  "unit_draws moving_env \<and>
   db_ok moving_env (db_calls (wifiDb two_district_server)) (tick_writes two_district_server) \<and>
   list_all2 perturbed (districts (wifi two_district_server))
      (districts (wifi (simulateRealTimeData moving_env two_district_server))) \<and>
   outbox (simulateRealTimeData moving_env two_district_server)
      = outbox two_district_server @ broadcast_messages two_district_server
           (wifi (simulateRealTimeData moving_env two_district_server)) \<and>
   map (\<lambda>d. (active_hotspots d, utilization d, status d))
      (districts (wifi (simulateRealTimeData moving_env two_district_server)))
      = [(583, 57, ''critical''), (0, 100, ''warning'')] \<and>
   unit_draws second_call_down_env \<and>
   \<not> db_ok second_call_down_env (db_calls (wifiDb two_district_server))
        (tick_writes two_district_server) \<and>
   accepted_writes second_call_down_env two_district_server = 1 \<and>
   list_all2 perturbed (take 1 (districts (wifi two_district_server)))
      (take 1 (districts (wifi (simulateRealTimeData second_call_down_env two_district_server)))) \<and>
   drop 1 (districts (wifi (simulateRealTimeData second_call_down_env two_district_server)))
      = drop 1 (districts (wifi two_district_server)) \<and>
   outbox (simulateRealTimeData second_call_down_env two_district_server)
      = outbox two_district_server \<and>
   map (\<lambda>d. (active_hotspots d, utilization d, status d))
      (districts (wifi (simulateRealTimeData second_call_down_env two_district_server)))
      = [(583, 57, ''critical''), (5, 99, ''warning'')]"
proof -
  have f: "fl (15 / 16) = 15 / 16" "fl (1 / 8) = 1 / 8" "fl (1 / 32) = 1 / 32"
    "fl (1 / 2) = 1 / 2" "fl 0 = 0"
    by code_simp+
  have a1: "unit_draws moving_env"
    by (simp add: unit_draws_def moving_env_def f)
  have a2: "unit_draws second_call_down_env"
    by (simp add: unit_draws_def second_call_down_env_def moving_env_def f)
  have b1: "db_ok moving_env (db_calls (wifiDb two_district_server))
              (tick_writes two_district_server)"
    by (simp add: db_ok_def moving_env_def example_env_def)
  have k2: "accepted_writes second_call_down_env two_district_server = 1"
    by code_simp
  have n2: "tick_writes two_district_server = 3"
    by code_simp
  have b2: "\<not> db_ok second_call_down_env (db_calls (wifiDb two_district_server))
              (tick_writes two_district_server)"
    using first_rejected_db_ok [of second_call_down_env
        "db_calls (wifiDb two_district_server)" "tick_writes two_district_server",
        folded accepted_writes_def] k2 n2
    by simp
  note L1 = tick_perturbs_and_broadcasts [OF a1, of two_district_server]
  note L2 = tick_perturbs_and_broadcasts [OF a2, of two_district_server]
  note c1 = mp [OF L1 [THEN conjunct1] b1]
  note c2 = mp [OF L2 [THEN conjunct2, THEN conjunct1] b2, unfolded k2]
  have r: "rng_calls two_district_server = 0"
    by code_simp
  have k1: "accepted_writes moving_env two_district_server = 3"
    by code_simp
  have e1: "districts (wifi (simulateRealTimeData moving_env two_district_server))
      = step_districts moving_env 3 (take 3 (districts (wifi two_district_server)))
          @ drop 3 (districts (wifi two_district_server))"
    using tick_general [of moving_env two_district_server, THEN conjunct1]
    by (simp add: k1 r)
  have v1: "map (\<lambda>d. (active_hotspots d, utilization d, status d))
      (districts (wifi (simulateRealTimeData moving_env two_district_server)))
      = [(583, 57, ''critical''), (0, 100, ''warning'')]"
    unfolding e1 by code_simp
  have e2: "districts (wifi (simulateRealTimeData second_call_down_env two_district_server))
      = step_districts second_call_down_env 3 (take 1 (districts (wifi two_district_server)))
          @ drop 1 (districts (wifi two_district_server))"
    using tick_general [of second_call_down_env two_district_server, THEN conjunct1]
    by (simp add: k2 r)
  have v2: "map (\<lambda>d. (active_hotspots d, utilization d, status d))
      (districts (wifi (simulateRealTimeData second_call_down_env two_district_server)))
      = [(583, 57, ''critical''), (5, 99, ''warning'')]"
    unfolding e2 by code_simp
  show ?thesis
    by (intro conjI a1 b1 c1 [THEN conjunct2, THEN conjunct1]
        c1 [THEN conjunct2, THEN conjunct2] v1 a2 b2 k2
        c2 [THEN conjunct2, THEN conjunct2, THEN conjunct2, THEN conjunct1]
        c2 [THEN conjunct2, THEN conjunct2, THEN conjunct2, THEN conjunct2, THEN conjunct1]
        c2 [THEN conjunct2, THEN conjunct2, THEN conjunct2, THEN conjunct2, THEN conjunct2] v2)
qed

text \<open>
  C2 as stated fails: when the database rejects the update of the first district, the tick
  ends in the \<open>catch\<close> clause; one client is open, nothing is sent to it, and the
  district is left as it was.
\<close>

theorem tick_without_broadcast_counterexample:
  "open_clients example_server = [1] \<and>
   outbox (simulateRealTimeData db_down_env example_server) = outbox example_server \<and>
   districts (wifi (simulateRealTimeData db_down_env example_server))
     = districts (wifi example_server)"
  by code_simp

text \<open>
  C9, as amended. \<open>updateMetricsFromDistricts\<close> is total and guards its division: when the
  total hotspots sum to zero or less (the empty list included) the aggregate utilization is
  0; otherwise it is \<open>Math.round\<close> of the double-precision value of
  \<open>(active / total) * 100\<close>, the quotient rounded to a double first and the product
  again. For an active sum from 0 to \<open>2^44\<close> that value is
  \<open>round (100 * active / total)\<close> unless \<open>100 * active / total\<close> lies exactly halfway
  between two integers, where it is that rounding or one less. \<open>criticalDistricts\<close> is
  the number of districts whose status is \<open>critical\<close>.
\<close>

theorem updateMetricsFromDistricts_amended:
  "(sum_total_hotspots (districts w) \<le> 0 \<longrightarrow>
      wifi_utilization (updateMetricsFromDistricts ev w) = 0) \<and>
   (0 < sum_total_hotspots (districts w) \<longrightarrow>
      wifi_utilization (updateMetricsFromDistricts ev w) =
        Math_round (js_mul (js_div (sum_active_hotspots (districts w))
                                   (sum_total_hotspots (districts w))) 100)) \<and>
   (0 < sum_total_hotspots (districts w) \<and> 0 \<le> sum_active_hotspots (districts w) \<and>
    sum_active_hotspots (districts w) \<le> 2 ^ 44 \<longrightarrow>
      (\<not> halfway (sum_active_hotspots (districts w)) (sum_total_hotspots (districts w)) \<longrightarrow>
         wifi_utilization (updateMetricsFromDistricts ev w) = round (exact_percentage (districts w))) \<and>
      (wifi_utilization (updateMetricsFromDistricts ev w) = round (exact_percentage (districts w)) \<or>
       wifi_utilization (updateMetricsFromDistricts ev w)
         = round (exact_percentage (districts w)) - 1)) \<and>
   wifi_utilization (updateMetricsFromDistricts ev (w\<lparr>districts := []\<rparr>)) = 0 \<and>
   criticalDistricts (updateMetricsFromDistricts ev w) = length (filter is_critical (districts w))"
proof (intro conjI impI)
  assume "sum_total_hotspots (districts w) \<le> 0"
  then show "wifi_utilization (updateMetricsFromDistricts ev w) = 0"
    by (simp add: updateMetrics_fields)
next
  assume "0 < sum_total_hotspots (districts w)"
  then show "wifi_utilization (updateMetricsFromDistricts ev w) =
        Math_round (js_mul (js_div (sum_active_hotspots (districts w))
                                   (sum_total_hotspots (districts w))) 100)"
    by (simp add: updateMetrics_fields)
next
  let ?a = "sum_active_hotspots (districts w)" and ?t = "sum_total_hotspots (districts w)"
  assume h: "0 < ?t \<and> 0 \<le> ?a \<and> ?a \<le> 2 ^ 44"
  then have u: "wifi_utilization (updateMetricsFromDistricts ev w)
                  = \<lfloor>js_mul (js_div ?a ?t) 100 + 1 / 2\<rfloor>"
    by (simp add: updateMetrics_fields Math_round_def)
  from h have close: "\<bar>js_mul (js_div ?a ?t) 100 - 100 * of_int ?a / of_int ?t\<bar>
                        < 1 / of_int (2 * ?t)"
    by (intro percentage_close) simp_all
  from h have t: "0 < ?t" by simp
  note st = round_stable [OF t close]
  {
    assume "\<not> halfway ?a ?t"
    with st show "wifi_utilization (updateMetricsFromDistricts ev w)
                    = round (exact_percentage (districts w))"
      by (simp add: u exact_percentage_def)
  }
  from st show "wifi_utilization (updateMetricsFromDistricts ev w) = round (exact_percentage (districts w)) \<or>
       wifi_utilization (updateMetricsFromDistricts ev w)
         = round (exact_percentage (districts w)) - 1"
    by (simp add: u exact_percentage_def)
next
  show "wifi_utilization (updateMetricsFromDistricts ev (w\<lparr>districts := []\<rparr>)) = 0"
    by (simp add: updateMetrics_fields sum_total_hotspots_def)
next
  show "criticalDistricts (updateMetricsFromDistricts ev w)
          = length (filter is_critical (districts w))"
    by (simp add: updateMetrics_fields)
qed

theorem updateMetricsFromDistricts_amended_witness:
  "sum_total_hotspots (districts (example_wifi\<lparr>districts := []\<rparr>)) \<le> 0 \<and>
   wifi_utilization (updateMetricsFromDistricts example_env (example_wifi\<lparr>districts := []\<rparr>)) = 0 \<and>
   0 < sum_total_hotspots (districts busy_wifi) \<and>
   0 \<le> sum_active_hotspots (districts busy_wifi) \<and>
   sum_active_hotspots (districts busy_wifi) \<le> 2 ^ 44 \<and>
   \<not> halfway (sum_active_hotspots (districts busy_wifi)) (sum_total_hotspots (districts busy_wifi)) \<and>
   wifi_utilization (updateMetricsFromDistricts example_env busy_wifi)
     = round (exact_percentage (districts busy_wifi)) \<and>
   wifi_utilization (updateMetricsFromDistricts example_env busy_wifi)
     = Math_round (js_mul (js_div (sum_active_hotspots (districts busy_wifi))
                                  (sum_total_hotspots (districts busy_wifi))) 100)"
proof -
  have a: "sum_total_hotspots (districts (example_wifi\<lparr>districts := []\<rparr>)) \<le> 0" by code_simp
  have b: "0 < sum_total_hotspots (districts busy_wifi)" by code_simp
  have c: "0 \<le> sum_active_hotspots (districts busy_wifi)" by code_simp
  have d: "sum_active_hotspots (districts busy_wifi) \<le> 2 ^ 44" by code_simp
  have e: "\<not> halfway (sum_active_hotspots (districts busy_wifi))
                (sum_total_hotspots (districts busy_wifi))" by code_simp
  note U1 = updateMetricsFromDistricts_amended [of "example_wifi\<lparr>districts := []\<rparr>" example_env]
  note U2 = updateMetricsFromDistricts_amended [of busy_wifi example_env]
  have w1: "wifi_utilization (updateMetricsFromDistricts example_env
              (example_wifi\<lparr>districts := []\<rparr>)) = 0"
    by (rule mp [OF U1 [THEN conjunct1] a])
  have w2: "wifi_utilization (updateMetricsFromDistricts example_env busy_wifi)
     = Math_round (js_mul (js_div (sum_active_hotspots (districts busy_wifi))
                                  (sum_total_hotspots (districts busy_wifi))) 100)"
    by (rule mp [OF U2 [THEN conjunct2, THEN conjunct1] b])
  have w3: "wifi_utilization (updateMetricsFromDistricts example_env busy_wifi)
     = round (exact_percentage (districts busy_wifi))"
    by (rule mp [OF mp [OF U2 [THEN conjunct2, THEN conjunct2, THEN conjunct1]
          conjI [OF b conjI [OF c d]], THEN conjunct1] e])
  show ?thesis
    by (intro conjI a b c d e w1 w2 w3)
qed

text \<open>
  C9 as stated fails: one district with 575 of 1000 hotspots active has
  \<open>100 * 575 / 1000 = 57.5\<close>, which rounds to 58 (a tie going up, and to even alike), while
  the code's \<open>(575 / 1000) * 100\<close> is the double \<open>57.49999999999999\<close> and gives 57.
\<close>

theorem utilization_rounding_counterexample:
  "0 < sum_total_hotspots (districts example_wifi) \<and>
   wifi_utilization (updateMetricsFromDistricts example_env example_wifi) = 57 \<and>
   round (exact_percentage (districts example_wifi)) = 58 \<and>
   round_half_even (exact_percentage (districts example_wifi)) = 58"
  by code_simp
section \<open>WebSocket messages: the property\<close>

text \<open>
  C6, as amended. Every message the server puts on a WebSocket is an object with exactly the
  two fields \<open>type\<close> and \<open>data\<close>, of type \<open>initial_data\<close> or \<open>data_update\<close>: this
  holds of all messages sent in any sequence of events. A new connection gets one
  \<open>initial_data\<close> message at once; a client message gets one \<open>data_update\<close> in reply
  when it parses to an object whose \<open>type\<close> is \<open>request_update\<close>, and nothing
  otherwise; a timer tick sends one \<open>data_update\<close> to every open client when the database
  accepts every write of the tick (one per district and the metrics row), and nothing when
  it rejects one; a close sends nothing. The timer itself (2000 ms) is outside the model: a
  tick is an event.
\<close>

theorem websocket_envelopes:
  "(envelopes_only (outbox s) \<longrightarrow> envelopes_only (outbox (run ev es s))) \<and>
   (\<exists>new. outbox (handle ev e s) = outbox s @ new) \<and>
   (case e of
      Connection ws \<Rightarrow> new_messages ev e s = [(ws, Some ''initial_data'')]
    | Message ws parsed \<Rightarrow>
        new_messages ev e s = (if requests_update parsed then [(ws, Some ''data_update'')] else [])
    | Close ws \<Rightarrow> new_messages ev e s = []
    | Tick \<Rightarrow> new_messages ev e s =
        (if db_ok ev (db_calls (wifiDb s)) (tick_writes s)
         then data_updates_to (open_clients s) else []))"
proof (rule conjI)
  show "envelopes_only (outbox s) \<longrightarrow> envelopes_only (outbox (run ev es s))"
    by (simp add: run_envelopes)
next
  show "(\<exists>new. outbox (handle ev e s) = outbox s @ new) \<and>
   (case e of
      Connection ws \<Rightarrow> new_messages ev e s = [(ws, Some ''initial_data'')]
    | Message ws parsed \<Rightarrow>
        new_messages ev e s = (if requests_update parsed then [(ws, Some ''data_update'')] else [])
    | Close ws \<Rightarrow> new_messages ev e s = []
    | Tick \<Rightarrow> new_messages ev e s =
        (if db_ok ev (db_calls (wifiDb s)) (tick_writes s)
         then data_updates_to (open_clients s) else []))"
  proof (cases e)
    case (Connection ws)
    then show ?thesis
      by (simp add: new_messages_def on_connection_def split: prod.splits)
  next
    case (Message ws parsed)
    then show ?thesis by (simp add: new_messages_def on_message_def)
  next
    case (Close ws)
    then show ?thesis by (simp add: new_messages_def on_close_def)
  next
    case Tick
    have iff: "(accepted_writes ev s = tick_writes s) = db_ok ev (db_calls (wifiDb s)) (tick_writes s)"
      unfolding accepted_writes_def by (rule first_rejected_db_ok)
    have ob: "outbox (simulateRealTimeData ev s)
        = outbox s @ (if db_ok ev (db_calls (wifiDb s)) (tick_writes s)
                      then broadcast_messages s (wifi (simulateRealTimeData ev s)) else [])"
      using tick_general [of ev s] by (simp only: iff)
    show ?thesis
    proof (cases "db_ok ev (db_calls (wifiDb s)) (tick_writes s)")
      case True
      with ob have "outbox (simulateRealTimeData ev s)
        = outbox s @ broadcast_messages s (wifi (simulateRealTimeData ev s))" by simp
      then show ?thesis using Tick True
        by (simp add: new_messages_def broadcast_messages_def data_updates_to_def comp_def)
    next
      case False
      with ob have "outbox (simulateRealTimeData ev s) = outbox s" by simp
      then show ?thesis using Tick False by (simp add: new_messages_def)
    qed
  qed
qed

theorem websocket_envelopes_witness:
  "envelopes_only (outbox example_server) \<and>
   envelopes_only (outbox (run example_env
      [Connection 3, Message 3 (Some request_update), Tick] example_server)) \<and>
   new_messages example_env (Connection 3) example_server = [(3, Some ''initial_data'')] \<and>
   new_messages example_env (Message 1 (Some request_update)) example_server
     = [(1, Some ''data_update'')] \<and>
   new_messages example_env (Message 1 None) example_server = [] \<and>
   new_messages example_env (Close 1) example_server = [] \<and>
   new_messages moving_env Tick two_district_server = [(1, Some ''data_update'')]"
proof -
  have a: "requests_update (Some request_update)" by (simp add: request_update_def)
  have b: "\<not> requests_update None" by simp
  have c: "envelopes_only (outbox example_server)"
    by (simp add: envelopes_only_def example_server_def)
  have d: "db_ok moving_env (db_calls (wifiDb two_district_server))
             (tick_writes two_district_server)"
    by (simp add: db_ok_def moving_env_def example_env_def)
  have o: "open_clients two_district_server = [1]"
    by code_simp
  note W0 = websocket_envelopes [of example_server example_env
      "[Connection 3, Message 3 (Some request_update), Tick]"]
  have w0: "envelopes_only (outbox (run example_env
      [Connection 3, Message 3 (Some request_update), Tick] example_server))"
    by (rule mp [OF W0 [THEN conjunct1] c])
  have w1: "new_messages example_env (Connection 3) example_server = [(3, Some ''initial_data'')]"
    using websocket_envelopes [of example_server example_env "[]" "Connection 3"] by simp
  have w2: "new_messages example_env (Message 1 (Some request_update)) example_server
     = [(1, Some ''data_update'')]"
    using a websocket_envelopes [of example_server example_env "[]"
        "Message 1 (Some request_update)"] by simp
  have w3: "new_messages example_env (Message 1 None) example_server = []"
    using b websocket_envelopes [of example_server example_env "[]" "Message 1 None"] by simp
  have w4: "new_messages example_env (Close 1) example_server = []"
    using websocket_envelopes [of example_server example_env "[]" "Close 1"] by simp
  have w5: "new_messages moving_env Tick two_district_server = [(1, Some ''data_update'')]"
    using d websocket_envelopes [of two_district_server moving_env "[]" Tick]
    by (simp add: o data_updates_to_def)
  show ?thesis
    by (intro conjI c w0 w1 w2 w3 w4 w5)
qed

text \<open>
  C6 as stated fails for the timer: in this tick the update of the one district is accepted
  and the write of the metrics row is rejected; the tick ends in the \<open>catch\<close> clause
  before \<open>broadcastUpdate\<close>, and the open client gets no \<open>data_update\<close>.
\<close>

theorem tick_sends_nothing_counterexample:
  "open_clients example_server = [1] \<and>
   \<not> db_fails second_call_down_env (db_calls (wifiDb example_server)) \<and>
   db_fails second_call_down_env (Suc (db_calls (wifiDb example_server))) \<and>
   new_messages second_call_down_env Tick example_server = []"
proof -
  have o: "open_clients example_server = [1]"
    by code_simp
  have k: "accepted_writes second_call_down_env example_server = 1"
    by code_simp
  have n: "tick_writes example_server = 2"
    by code_simp
  have f: "\<not> db_fails second_call_down_env (db_calls (wifiDb example_server))"
    "db_fails second_call_down_env (Suc (db_calls (wifiDb example_server)))"
    by code_simp+
  have "outbox (simulateRealTimeData second_call_down_env example_server)
          = outbox example_server"
    using tick_general [of second_call_down_env example_server] by (simp add: k n)
  then have m: "new_messages second_call_down_env Tick example_server = []"
    by (simp add: new_messages_def)
  show ?thesis
    by (intro conjI o f m)
qed


section \<open>Pages, login, registration and accounts: the properties\<close>

text \<open>
  C1. The claim is that \<open>/admin\<close>, \<open>/dashboard\<close> and \<open>/viewer\<close> are served only to a
  session authenticated with the matching role. The code defines \<open>requireAuth\<close> and
  \<open>requireRole\<close> but registers the three routes without them: a request with an empty
  session is served each page, where the two middlewares would have redirected it to
  \<open>/login\<close> and answered 403.
\<close>

theorem pages_served_without_session:
  "app_get ''/admin'' empty_session = Some (Render ''admin'' (Some ''admin'')) \<and>
   app_get ''/dashboard'' empty_session = Some (Render ''dashboard'' (Some ''user'')) \<and>
   app_get ''/viewer'' empty_session = Some (Render ''viewer'' (Some ''viewer'')) \<and>
   requireAuth empty_session = Some (Redirect ''/login'') \<and>
   requireRole ''admin'' empty_session = Some (SendText 403 ''Access denied'')"
  by code_simp

text \<open>
  C3. The claim is that a registration whose username or email exists is answered 409 and
  creates no account. The handler of \<open>/auth/register\<close> calls
  \<open>database.getUserByUsername\<close>, which the database module does not define: the call
  throws, and the request is answered 500. Here \<open>alice\<close> exists and registers again; no
  account is created, but the status is 500 and not 409.
\<close>

theorem duplicate_registration_gets_500:
  "username_taken alice_database ''alice'' \<and>
   auth_register example_env ''10.0.0.7'' alice_again alice_database
     = (Json 500 (error_json ''Registration failed''), alice_database)"
  by code_simp




text \<open>
  C5. The claim is that no operation stores a clear-text password. \<open>createUser\<close>,
  \<open>createAdmin\<close> and the seed store the bcrypt hash (\<open>createUser_password\<close>,
  \<open>createAdmin_password\<close> above). The handler of \<open>PUT /api/users/:id\<close> removes the
  property named \<open>password\<close> from the body and passes every other property to
  \<open>updateUser\<close> as a column to set; a property named \<open>PASSWORD\<close> is not removed, and
  SQLite takes it for the column \<open>password\<close>. The stored hash of \<open>alice\<close> is replaced
  by the clear text of the request.
\<close>

theorem clear_text_password_stored:
  "stored_passwords (users alice_database) = [SText (hashSync example_env ''correct horse'')] \<and>
   status_code (fst (api_users_put example_env 1 [(''PASSWORD'', SText ''hunter22'')] alice_database)) = 200 \<and>
   stored_passwords (users (snd (api_users_put example_env 1 [(''PASSWORD'', SText ''hunter22'')]
      alice_database))) = [SText ''hunter22'']"
  by code_simp

text \<open>
  C8, as amended. No method of the database module other than \<open>deleteUser\<close> removes a
  row from \<open>users\<close> or \<open>admins\<close>: after creation, seeding, authentication and update
  each table has at least as many rows as before, and after an update exactly as many.
  Deactivating an account (\<open>updateUser\<close> with \<open>is_active = 0\<close>) changes only that
  column of the row with the given id. \<open>deleteUser\<close> is a hard delete: it removes the
  rows with the given id from the table.
\<close>

theorem account_rows_lifecycle:
  "(\<not> is_delete op \<longrightarrow>
      fst (account_count db) \<le> fst (account_count (run_op ev op db)) \<and>
      snd (account_count db) \<le> snd (account_count (run_op ev op db))) \<and>
   account_count (run_op ev (UpdateUser i ups t) db) = account_count db \<and>
   (fst (updateUser ev db i [(''is_active'', SInt 0)] t) = Inr n \<longrightarrow>
      rows (account_table t (run_op ev (UpdateUser i [(''is_active'', SInt 0)] t) db))
        = map (deactivate i) (rows (account_table t db))) \<and>
   (\<not> db_fails ev (calls db) \<longrightarrow>
      rows (account_table t (run_op ev (DeleteUser i t) db))
        = without_id i (rows (account_table t db)))"
proof (intro conjI impI)
  assume nd: "\<not> is_delete op"
  show "fst (account_count db) \<le> fst (account_count (run_op ev op db))"
  proof (cases op)
    case (CreateUser ud t')
    from createUser_rows [of ev db ud t'] show ?thesis
      by (auto simp: CreateUser account_count_def)
  next
    case (CreateAdmin ad)
    from createAdmin_rows [of ev db ad] show ?thesis
      by (auto simp: CreateAdmin account_count_def)
  next
    case SeedInitialData
    from seedInitialData_rows [of ev db] show ?thesis
      by (auto simp: SeedInitialData account_count_def)
  next
    case (AuthenticateUser u pw t')
    then show ?thesis by (simp add: authenticateUser_count)
  next
    case (UpdateUser i' ups' t')
    then show ?thesis by (simp add: updateUser_count)
  next
    case (DeleteUser i' t')
    with nd show ?thesis by simp
  qed
  show "snd (account_count db) \<le> snd (account_count (run_op ev op db))"
  proof (cases op)
    case (CreateUser ud t')
    from createUser_rows [of ev db ud t'] show ?thesis
      by (auto simp: CreateUser account_count_def)
  next
    case (CreateAdmin ad)
    from createAdmin_rows [of ev db ad] show ?thesis
      by (auto simp: CreateAdmin account_count_def)
  next
    case SeedInitialData
    from seedInitialData_rows [of ev db] show ?thesis
      by (auto simp: SeedInitialData account_count_def)
  next
    case (AuthenticateUser u pw t')
    then show ?thesis by (simp add: authenticateUser_count)
  next
    case (UpdateUser i' ups' t')
    then show ?thesis by (simp add: updateUser_count)
  next
    case (DeleteUser i' t')
    with nd show ?thesis by simp
  qed
next
  show "account_count (run_op ev (UpdateUser i ups t) db) = account_count db"
    by (simp add: updateUser_count)
next
  assume "fst (updateUser ev db i [(''is_active'', SInt 0)] t) = Inr n"
  then show "rows (account_table t (run_op ev (UpdateUser i [(''is_active'', SInt 0)] t) db))
        = map (deactivate i) (rows (account_table t db))"
    by (simp add: updateUser_deactivate)
next
  assume "\<not> db_fails ev (calls db)"
  then show "rows (account_table t (run_op ev (DeleteUser i t) db))
        = without_id i (rows (account_table t db))"
    by (simp add: deleteUser_rows)
qed

theorem account_rows_lifecycle_witness:
  "\<not> is_delete (CreateUser alice ''user'') \<and>
   fst (account_count empty_database)
     \<le> fst (account_count (run_op example_env (CreateUser alice ''user'') empty_database)) \<and>
   fst (updateUser example_env alice_database 1 [(''is_active'', SInt 0)] ''user'') = Inr 1 \<and>
   rows (account_table ''user''
      (run_op example_env (UpdateUser 1 [(''is_active'', SInt 0)] ''user'') alice_database))
     = map (deactivate 1) (rows (account_table ''user'' alice_database)) \<and>
   \<not> db_fails example_env (calls alice_database) \<and>
   rows (account_table ''user'' (run_op example_env (DeleteUser 1 ''user'') alice_database))
     = without_id 1 (rows (account_table ''user'' alice_database))"
proof -
  have a: "\<not> is_delete (CreateUser alice ''user'')" by simp
  have b: "fst (updateUser example_env alice_database 1 [(''is_active'', SInt 0)] ''user'') = Inr 1"
    by code_simp
  have c: "\<not> db_fails example_env (calls alice_database)" by (simp add: example_env_def)
  note A1 = account_rows_lifecycle [of "CreateUser alice ''user''" empty_database example_env]
  note A2 = account_rows_lifecycle [of "CreateUser alice ''user''" alice_database example_env
      1 "[]" "''user''" 1]
  have w1: "fst (account_count empty_database)
     \<le> fst (account_count (run_op example_env (CreateUser alice ''user'') empty_database))"
    by (rule mp [OF A1 [THEN conjunct1] a, THEN conjunct1])
  have w2: "rows (account_table ''user''
      (run_op example_env (UpdateUser 1 [(''is_active'', SInt 0)] ''user'') alice_database))
     = map (deactivate 1) (rows (account_table ''user'' alice_database))"
    by (rule mp [OF A2 [THEN conjunct2, THEN conjunct2, THEN conjunct1] b])
  have w3: "rows (account_table ''user'' (run_op example_env (DeleteUser 1 ''user'') alice_database))
     = without_id 1 (rows (account_table ''user'' alice_database))"
    by (rule mp [OF A2 [THEN conjunct2, THEN conjunct2, THEN conjunct2] c])
  show ?thesis
    by (intro conjI a b c w1 w2 w3)
qed

text \<open>
  C8 as stated fails: \<open>deleteUser\<close>, and through it \<open>DELETE /api/users/:id\<close>, removes
  the row of \<open>alice\<close> from the \<open>users\<close> table.
\<close>

theorem deleteUser_removes_row_counterexample:
  "length (rows (users alice_database)) = 1 \<and>
   rows (users (snd (deleteUser example_env alice_database 1 ''user''))) = [] \<and>
   rows (users (snd (api_users_delete example_env 1 alice_database))) = []"
  by code_simp

end
